theory Spec2Isabelle
  imports Main
begin

chapter \<open>The model of the program\<close>

section \<open>JavaScript values, options and errors\<close>

text \<open>
  The option object of \<^verbatim>\<open>syncToGitHub\<close> is dynamically typed: the source tests its
  fields with \<^verbatim>\<open>typeof\<close>, with truthiness (\<^verbatim>\<open>||\<close>, \<^verbatim>\<open>if\<close>) and with \<^verbatim>\<open>===\<close>.
  A field is therefore a JavaScript value. Numbers are integers here; \<^verbatim>\<open>NaN\<close> is falsy and
  not a string, so in every position where the source inspects an option it behaves
  like \<open>JNum 0\<close>. An object is a reference: \<^verbatim>\<open>===\<close> on objects compares identity, which
  is equality of the reference number.
\<close>

datatype jsval = JUndefined | JNull | JBool bool | JNum int | JStr string | JObj nat

fun truthy :: "jsval \<Rightarrow> bool" where
  "truthy JUndefined = False"
| "truthy JNull = False"
| "truthy (JBool b) = b"
| "truthy (JNum n) = (n \<noteq> 0)"
| "truthy (JStr s) = (s \<noteq> [])"
| "truthy (JObj r) = True"

text \<open>\<^verbatim>\<open>a || b\<close>\<close>

definition js_or :: "jsval \<Rightarrow> jsval \<Rightarrow> jsval" where
  "js_or a b = (if truthy a then a else b)"

text \<open>\<^verbatim>\<open>typeof(v) === 'string'\<close>\<close>

fun isString :: "jsval \<Rightarrow> bool" where
  "isString (JStr s) = True"
| "isString v = False"

text \<open>Decimal digits of a natural number, for string conversion of numbers.\<close>

fun decimal :: "nat \<Rightarrow> string" where
  "decimal n =
     (if n < 10 then [char_of (48 + n)]
      else decimal (n div 10) @ [char_of (48 + n mod 10)])"

text \<open>
  String conversion, as \<^verbatim>\<open>'heads/' + branchName\<close> and \<^verbatim>\<open>%s\<close> of \<^verbatim>\<open>util.format\<close>
  perform it (an object is taken to be a plain object).
\<close>

fun toString :: "jsval \<Rightarrow> string" where
  "toString JUndefined = ''undefined''"
| "toString JNull = ''null''"
| "toString (JBool b) = (if b then ''true'' else ''false'')"
| "toString (JNum n) = (if n < 0 then CHR ''-'' # decimal (nat (- n)) else decimal (nat n))"
| "toString (JStr s) = s"
| "toString (JObj r) = ''[object Object]''"

record options =
  opt_user :: jsval
  opt_repo :: jsval
  opt_localPath :: jsval
  opt_repoPath :: jsval
  opt_message :: jsval
  opt_preserveRepoFiles :: jsval
  opt_branch :: jsval
  opt_baseBranch :: jsval
  opt_createBranch :: jsval
  opt_createPullRequest :: jsval
  opt_debug :: jsval

text \<open>
  A failure is a thrown or rejected value. \<open>ErrorObject code message\<close> is an object with
  the properties \<^verbatim>\<open>code\<close> and \<^verbatim>\<open>message\<close> (\<open>JUndefined\<close> when absent);
  \<^verbatim>\<open>new Error(msg)\<close> is \<open>ErrorObject JUndefined (JStr msg)\<close>. \<open>ErrorString\<close> is a
  rejection with a primitive string, whose \<^verbatim>\<open>typeof\<close> is not \<^verbatim>\<open>'object'\<close>.
\<close>

datatype js_error = ErrorObject jsval jsval | ErrorString string

definition newError :: "string \<Rightarrow> js_error" where
  "newError msg = ErrorObject JUndefined (JStr msg)"

fun error_code :: "js_error \<Rightarrow> jsval" where
  "error_code (ErrorObject c m) = c"
| "error_code (ErrorString s) = JUndefined"

section \<open>Option validation\<close>

text \<open>
  \<^verbatim>\<open>validateOptions\<close> (sync.js, lines 471-504) first writes the defaults of \<^verbatim>\<open>branch\<close> and
  \<^verbatim>\<open>baseBranch\<close> into the option object, then throws at the first failing check. The
  model returns the error, or the option object with the defaults written.
\<close>

definition validateOptions :: "options \<Rightarrow> js_error + options" where
  "validateOptions options0 =
     (let options = options0\<lparr>opt_branch := js_or (opt_branch options0) (JStr ''master'')\<rparr>;
          options = options\<lparr>opt_baseBranch := js_or (opt_baseBranch options) (JStr ''master'')\<rparr>
      in
      if \<not> isString (opt_user options) then
        Inl (newError ''Must pass owner of repo in `user`'')
      else if \<not> isString (opt_repo options) then
        Inl (newError ''Must pass repo name in `repo`'')
      else if \<not> isString (opt_localPath options) then
        Inl (newError ''Must pass local path to sync from in `localPath`'')
      else if \<not> isString (opt_repoPath options) then
        Inl (newError ''Must pass path within repo to sync to in `repoPath`'')
      else if \<not> isString (opt_message options) then
        Inl (newError ''Must pass commit message in `message`'')
      else if opt_baseBranch options = opt_branch options then
        (if truthy (opt_createBranch options) then
           Inl (newError (''Cannot create `branch` if it is the same as `baseBranch` (''
                  @ toString (opt_branch options) @ '')''))
         else if truthy (opt_createPullRequest options) then
           Inl (newError (''Cannot create pull request when `branch` and ''
                  @ ''`baseBranch` are the same ('' @ toString (opt_branch options) @ '').''))
         else Inr options)
      else Inr options)"

section \<open>Strings\<close>

text \<open>\<^verbatim>\<open>s.split(sep)\<close> for a one-character separator: never the empty array.\<close>

fun split :: "char \<Rightarrow> string \<Rightarrow> string list" where
  "split sep [] = [[]]"
| "split sep (c # cs) =
     (if c = sep then [] # split sep cs
      else (case split sep cs of [] \<Rightarrow> [[c]] | w # ws \<Rightarrow> (c # w) # ws))"

text \<open>\<^verbatim>\<open>lines.join(sep)\<close>\<close>

fun join :: "char \<Rightarrow> string list \<Rightarrow> string" where
  "join sep [] = []"
| "join sep [l] = l"
| "join sep (l # ls) = l @ sep # join sep ls"

text \<open>\<^verbatim>\<open>_.compact\<close> on an array of strings removes the empty ones (the falsy strings).\<close>

definition compact :: "string list \<Rightarrow> string list" where
  "compact parts = filter (\<lambda>part. part \<noteq> []) parts"

text \<open>A regular expression without metacharacters tests for a substring.\<close>

fun containsSubstring :: "string \<Rightarrow> string \<Rightarrow> bool" where
  "containsSubstring pat [] = (pat = [])"
| "containsSubstring pat (c # cs) =
     (take (length pat) (c # cs) = pat \<or> containsSubstring pat cs)"

text \<open>
  \<^verbatim>\<open>path.join(localPath, filename)\<close>. The file system below is an arbitrary function of
  the joined path, so the normalisation that Node applies is left to it.
\<close>

definition path_join :: "string \<Rightarrow> string \<Rightarrow> string" where
  "path_join dir name = dir @ ''/'' @ name"

text \<open>
  A plain object \<^verbatim>\<open>{}\<close> used as a set of keys: \<^verbatim>\<open>obj[key] = true\<close> adds an own
  property, and the lookup \<^verbatim>\<open>obj[key]\<close> is truthy for an own property and also for
  every property inherited from \<^verbatim>\<open>Object.prototype\<close>, whose values are functions
  (and, for \<^verbatim>\<open>__proto__\<close>, the prototype object itself), all truthy.
\<close>

definition objectPrototypeKeys :: "string list" where
  "objectPrototypeKeys =
     [''constructor'', ''toString'', ''toLocaleString'', ''valueOf'', ''hasOwnProperty'',
      ''isPrototypeOf'', ''propertyIsEnumerable'', ''__defineGetter__'', ''__defineSetter__'',
      ''__lookupGetter__'', ''__lookupSetter__'', ''__proto__'']"

definition jsLookupTruthy :: "string list \<Rightarrow> string \<Rightarrow> bool" where
  "jsLookupTruthy ownKeys key = (key \<in> set ownKeys \<or> key \<in> set objectPrototypeKeys)"

section \<open>The object store and the local file system\<close>

text \<open>
  A tree entry as the store returns it: the four canonical fields and whatever else the
  store attaches (\<^verbatim>\<open>url\<close>, \<^verbatim>\<open>size\<close>), kept in \<open>extra\<close>.
\<close>

record entry =
  path :: string
  mode :: string
  type :: string
  sha :: string
  extra :: "(string \<times> jsval) list"

record git_tree =
  tree_sha :: string
  tree :: "entry list"

text \<open>A reference (\<^verbatim>\<open>branch.object.sha\<close>) and a commit (\<^verbatim>\<open>commit.sha\<close>, \<^verbatim>\<open>commit.tree.sha\<close>).\<close>

record reference =
  ref_name :: string
  object_sha :: string

record commit =
  commit_sha :: string
  commit_tree_sha :: string

text \<open>
  The calls the sync makes to the store, with their parameters. An element of the
  \<^verbatim>\<open>tree\<close> array of a tree-creation request is an entry or \<^verbatim>\<open>null\<close>.
\<close>

datatype request =
    GetReference string
  | CreateReference "string \<times> string"
  | GetCommit string
  | GetTree string
  | CreateBlob "string \<times> string"
  | CreateTree "entry option list"
  | CreateCommit "string \<times> string \<times> string list"
  | UpdateReference "string \<times> string"
  | PullRequestsCreate "string \<times> string \<times> string \<times> string"

text \<open>
  The store is an external collaborator: each method is an arbitrary function of the
  requests made so far, of \<^verbatim>\<open>user\<close> and \<^verbatim>\<open>repo\<close>, and of its parameters, and it
  answers with a failure or with an object of the documented shape. A function of the
  history covers every deterministic store, whatever its state.
\<close>

type_synonym ('p, 'a) endpoint = "request list \<Rightarrow> string \<Rightarrow> string \<Rightarrow> 'p \<Rightarrow> js_error + 'a"

record gateway =
  getReferenceAsync :: "(string, reference) endpoint"
  createReferenceAsync :: "(string \<times> string, reference) endpoint"
  getCommitAsync :: "(string, commit) endpoint"
  getTreeAsync :: "(string, git_tree) endpoint"
  createBlobAsync :: "(string \<times> string, string) endpoint"
  createTreeAsync :: "(entry option list, git_tree) endpoint"
  createCommitAsync :: "(string \<times> string \<times> string list, commit) endpoint"
  updateReferenceAsync :: "(string \<times> string, reference) endpoint"
  pullRequestsAsync :: "(string \<times> string \<times> string \<times> string, unit) endpoint"

text \<open>
  The local file system, read only: the names in a directory, whether a path is a
  directory (\<^verbatim>\<open>stat.isDirectory()\<close>), and the content of a file as UTF-8 text.
\<close>

record filesystem =
  readdirAsync :: "string \<Rightarrow> js_error + string list"
  statAsync :: "string \<Rightarrow> js_error + bool"
  readFileAsync :: "string \<Rightarrow> js_error + string"

text \<open>
  What a sync does to the outside: the requests sent to the store, in order, and the
  lines written to the console. A console line is kept as the call that wrote it, not
  as formatted text.
\<close>

datatype console_msg =
    LogSyncStarted
  | LogGitdata request
  | LogTargetPathExists
  | LogNoChanges
  | LogPullRequestExists string string
  | LogSyncComplete
  | WarnDirectory string

record world =
  requests :: "request list"
  console :: "console_msg list"

text \<open>\<^verbatim>\<open>debug\<close> (lines 513-517) writes to the console only when \<^verbatim>\<open>options.debug\<close> is truthy.\<close>

definition debug :: "options \<Rightarrow> console_msg \<Rightarrow> world \<Rightarrow> world" where
  "debug options msg w =
     (if truthy (opt_debug options) then w\<lparr>console := console w @ [msg]\<rparr> else w)"

text \<open>The logged parameters hide the content of a blob behind its length.\<close>

fun loggedParams :: "request \<Rightarrow> request" where
  "loggedParams (CreateBlob (content, encoding)) =
     CreateBlob (''['' @ decimal (length content) @ '' characters]'', encoding)"
| "loggedParams r = r"

text \<open>
  \<^verbatim>\<open>wrapGitData\<close> (lines 553-572) returns the closure \<^verbatim>\<open>gitData(name, params)\<close>. The
  name selects the method; in the model it is the method of the gateway together with
  the constructor of the request.
\<close>

definition gitData ::
  "options \<Rightarrow> ('p, 'a) endpoint \<Rightarrow> ('p \<Rightarrow> request) \<Rightarrow> 'p \<Rightarrow> world \<Rightarrow> (js_error + 'a) \<times> world" where
  "gitData options method name params w =
     (let w1 = debug options (LogGitdata (loggedParams (name params))) w
      in (method (requests w1) (toString (opt_user options)) (toString (opt_repo options)) params,
          w1\<lparr>requests := requests w1 @ [name params]\<rparr>))"

section \<open>Building the tree of the local directory\<close>

text \<open>\<^verbatim>\<open>treeChildrenForCreateRequest\<close> (lines 714-718): \<^verbatim>\<open>_.pick\<close> keeps the four fields.\<close>

definition pick :: "entry \<Rightarrow> entry" where
  "pick child = \<lparr>path = path child, mode = mode child, type = type child, sha = sha child,
                 extra = []\<rparr>"

definition treeChildrenForCreateRequest :: "git_tree \<Rightarrow> entry list" where
  "treeChildrenForCreateRequest t = map pick (tree t)"

text \<open>
  The function mapped over the file names in \<^verbatim>\<open>createTreeForSingleDir\<close> (lines
  586-616): a directory gives \<^verbatim>\<open>null\<close> and a warning; a file is read, uploaded as a
  blob, recorded in \<^verbatim>\<open>pathExists\<close> and gives its entry.
\<close>

definition uploadFile ::
  "gateway \<Rightarrow> options \<Rightarrow> filesystem \<Rightarrow> string \<Rightarrow> string \<Rightarrow> string list \<Rightarrow> world
     \<Rightarrow> (js_error + entry option \<times> string list) \<times> world" where
  "uploadFile gw options fs localPath filename pathExists w =
     (let fullPath = path_join localPath filename in
      case statAsync fs fullPath of
        Inl e \<Rightarrow> (Inl e, w)
      | Inr isDirectory \<Rightarrow>
          if isDirectory then
            (Inr (None, pathExists), w\<lparr>console := console w @ [WarnDirectory fullPath]\<rparr>)
          else
            (case readFileAsync fs fullPath of
               Inl e \<Rightarrow> (Inl e, w)
             | Inr content \<Rightarrow>
                 (case gitData options (createBlobAsync gw) CreateBlob (content, ''utf-8'') w of
                    (Inl e, w1) \<Rightarrow> (Inl e, w1)
                  | (Inr response_sha, w1) \<Rightarrow>
                      (Inr (Some \<lparr>path = filename, mode = ''100644'', type = ''blob'',
                                  sha = response_sha, extra = []\<rparr>,
                            pathExists @ [filename]), w1))))"

text \<open>
  \<^verbatim>\<open>Promise.all(filenames.map(...))\<close>: the results are in the order of the file names,
  and the first failure rejects the whole. The source starts the files concurrently;
  the model takes them in listing order, which fixes the order of the blob requests and
  which failure is reported when several files fail.
\<close>

fun uploadFiles ::
  "gateway \<Rightarrow> options \<Rightarrow> filesystem \<Rightarrow> string \<Rightarrow> string list \<Rightarrow> string list \<Rightarrow> world
     \<Rightarrow> (js_error + entry option list \<times> string list) \<times> world" where
  "uploadFiles gw options fs localPath [] pathExists w = (Inr ([], pathExists), w)"
| "uploadFiles gw options fs localPath (filename # rest) pathExists w =
     (case uploadFile gw options fs localPath filename pathExists w of
        (Inl e, w1) \<Rightarrow> (Inl e, w1)
      | (Inr (child, pathExists1), w1) \<Rightarrow>
          (case uploadFiles gw options fs localPath rest pathExists1 w1 of
             (Inl e, w2) \<Rightarrow> (Inl e, w2)
           | (Inr (children, pathExists2), w2) \<Rightarrow> (Inr (child # children, pathExists2), w2)))"

text \<open>
  The children of the base tree that are brought into the new tree (lines 619-626):
  those whose path does not look up truthy in \<^verbatim>\<open>pathExists\<close>.
\<close>

definition childrenWithBase :: "entry option list \<Rightarrow> string list \<Rightarrow> git_tree option \<Rightarrow> entry option list" where
  "childrenWithBase children pathExists baseTree =
     (case baseTree of
        None \<Rightarrow> children
      | Some base \<Rightarrow>
          children @ map Some (filter (\<lambda>child. \<not> jsLookupTruthy pathExists (path child))
                                 (treeChildrenForCreateRequest base)))"

text \<open>\<^verbatim>\<open>createTreeForSingleDir\<close> (lines 582-629)\<close>

definition createTreeForSingleDir ::
  "gateway \<Rightarrow> options \<Rightarrow> filesystem \<Rightarrow> string \<Rightarrow> git_tree option \<Rightarrow> world
     \<Rightarrow> (js_error + git_tree) \<times> world" where
  "createTreeForSingleDir gw options fs localPath baseTree w =
     (case readdirAsync fs localPath of
        Inl e \<Rightarrow> (Inl e, w)
      | Inr filenames \<Rightarrow>
          (case uploadFiles gw options fs localPath filenames [] w of
             (Inl e, w1) \<Rightarrow> (Inl e, w1)
           | (Inr (children, pathExists), w1) \<Rightarrow>
               gitData options (createTreeAsync gw) CreateTree
                 (childrenWithBase children pathExists baseTree) w1))"

section \<open>Rebuilding the trees along the path\<close>

text \<open>
  The in-place change of the parent tree in \<^verbatim>\<open>createTreeForPath\<close> (lines 689-698):
  \<^verbatim>\<open>_.find\<close> gives the first child with the path; when there is none a fresh child
  \<^verbatim>\<open>{ path: lastPath }\<close> is pushed; the child found or pushed then gets its type, mode
  and hash assigned.
\<close>

definition assignTree :: "entry \<Rightarrow> string \<Rightarrow> entry" where
  "assignTree child lastTree_sha = child\<lparr>type := ''tree'', mode := ''040000'', sha := lastTree_sha\<rparr>"

definition linkChild :: "git_tree \<Rightarrow> string \<Rightarrow> git_tree \<Rightarrow> git_tree" where
  "linkChild parentTree lastPath lastTree =
     (case find (\<lambda>child. path child = lastPath) (tree parentTree) of
        None \<Rightarrow>
          parentTree\<lparr>tree := tree parentTree @
            [assignTree \<lparr>path = lastPath, mode = [], type = [], sha = [], extra = []\<rparr>
               (tree_sha lastTree)]\<rparr>
      | Some child \<Rightarrow>
          parentTree\<lparr>tree := (tree parentTree)
            [length (takeWhile (\<lambda>child. path child \<noteq> lastPath) (tree parentTree))
               := assignTree child (tree_sha lastTree)]\<rparr>)"

text \<open>
  \<^verbatim>\<open>createTreeForPath\<close> (lines 678-707). \<^verbatim>\<open>slice(-1)[0]\<close> is the last tree,
  \<^verbatim>\<open>slice(-2)[0]\<close> the one before it (the last one again in a chain of one tree), and
  \<^verbatim>\<open>slice(0, -2)\<close> drops the last two. Both callers pass a chain that ends with a tree
  they have just pushed; on the empty chain JavaScript would read \<^verbatim>\<open>undefined\<close>, which
  the model reports as a failure.
\<close>

definition undefinedTree :: js_error where
  "undefinedTree = newError ''Cannot read property of undefined''"

function createTreeForPath ::
  "gateway \<Rightarrow> options \<Rightarrow> git_tree list \<Rightarrow> string list \<Rightarrow> world \<Rightarrow> (js_error + git_tree) \<times> world" where
  "createTreeForPath gw options treesForPath pathParts w =
     (if treesForPath = [] then (Inl undefinedTree, w)
      else
        let lastTree = last treesForPath;
            parentTree = hd (drop (length treesForPath - 2) treesForPath)
        in
        if pathParts = [] then (Inr lastTree, w)
        else
          let lastPath = last pathParts;
              newTreeChildren = treeChildrenForCreateRequest (linkChild parentTree lastPath lastTree)
          in
          (case gitData options (createTreeAsync gw) CreateTree (map Some newTreeChildren) w of
             (Inl e, w1) \<Rightarrow> (Inl e, w1)
           | (Inr newTree, w1) \<Rightarrow>
               createTreeForPath gw options
                 (take (length treesForPath - 2) treesForPath @ [newTree]) (butlast pathParts) w1))"
  by pat_completeness auto
termination
  by (relation "measure (\<lambda>(gw, options, treesForPath, pathParts, w). length pathParts)") auto

declare createTreeForPath.simps [simp del]

text \<open>
  \<^verbatim>\<open>createNewTreeForPath\<close> (lines 643-665). \<^verbatim>\<open>splice(-1)\<close> removes the existing tree
  of the target from the chain.
\<close>

definition pathNotFound :: "options \<Rightarrow> js_error" where
  "pathNotFound options =
     newError (''Could not find existing parent dir for repo path: '' @ toString (opt_repoPath options))"

definition createNewTreeForPath ::
  "gateway \<Rightarrow> options \<Rightarrow> filesystem \<Rightarrow> git_tree list \<Rightarrow> string list \<Rightarrow> world
     \<Rightarrow> (js_error + git_tree) \<times> world" where
  "createNewTreeForPath gw options fs treesForPath0 pathParts w0 =
     (let targetExists = (length treesForPath0 = length pathParts + 1);
          w = (if targetExists then debug options LogTargetPathExists w0 else w0);
          existingTree = (if targetExists then Some (last treesForPath0) else None);
          treesForPath = (if targetExists then butlast treesForPath0 else treesForPath0)
      in
      if length treesForPath = length pathParts then
        (case createTreeForSingleDir gw options fs (toString (opt_localPath options))
                (if existingTree \<noteq> None \<and> truthy (opt_preserveRepoFiles options)
                 then existingTree else None) w of
           (Inl e, w1) \<Rightarrow> (Inl e, w1)
         | (Inr newTargetTree, w1) \<Rightarrow>
             createTreeForPath gw options (treesForPath @ [newTargetTree]) pathParts w1)
      else (Inl (pathNotFound options), w))"

section \<open>Resolving the path\<close>

text \<open>
  \<^verbatim>\<open>getTree\<close> (lines 836-844). In this model a tree is a value, so the copy that
  \<^verbatim>\<open>_.merge({}, cached)\<close> makes is the cached value. Keys of the cache are the hashes
  the store issues (hexadecimal digests).
\<close>

definition getTree ::
  "gateway \<Rightarrow> options \<Rightarrow> (string \<rightharpoonup> git_tree) \<Rightarrow> string \<Rightarrow> world \<Rightarrow> (js_error + git_tree) \<times> world" where
  "getTree gw options treeCache treeSha w =
     (case treeCache treeSha of
        Some cached \<Rightarrow> (Inr cached, w)
      | None \<Rightarrow> gitData options (getTreeAsync gw) GetTree treeSha w)"

text \<open>
  \<^verbatim>\<open>existingTreesForPath\<close> (lines 800-825). The cache is optional (\<^verbatim>\<open>treeCache || {}\<close>);
  the function writes into it, so the model returns it with the chain.
\<close>

fun existingTreesForPath ::
  "gateway \<Rightarrow> options \<Rightarrow> git_tree \<Rightarrow> string list \<Rightarrow> (string \<rightharpoonup> git_tree) option \<Rightarrow> world
     \<Rightarrow> (js_error + git_tree list) \<times> (string \<rightharpoonup> git_tree) \<times> world" where
  "existingTreesForPath gw options rootTree [] treeCache0 w =
     (let treeCache = (case treeCache0 of None \<Rightarrow> Map.empty | Some c \<Rightarrow> c);
          treeCache = treeCache(tree_sha rootTree \<mapsto> rootTree)
      in (Inr [rootTree], treeCache, w))"
| "existingTreesForPath gw options rootTree (path0 # remainingPath) treeCache0 w =
     (let treeCache = (case treeCache0 of None \<Rightarrow> Map.empty | Some c \<Rightarrow> c);
          treeCache = treeCache(tree_sha rootTree \<mapsto> rootTree)
      in
      case find (\<lambda>child. type child = ''tree'' \<and> path child = path0) (tree rootTree) of
        None \<Rightarrow> (Inr [rootTree], treeCache, w)
      | Some nextTreeInfo \<Rightarrow>
          (case getTree gw options treeCache (sha nextTreeInfo) w of
             (Inl e, w1) \<Rightarrow> (Inl e, treeCache, w1)
           | (Inr nextTree, w1) \<Rightarrow>
               (case existingTreesForPath gw options nextTree remainingPath (Some treeCache) w1 of
                  (Inl e, treeCache2, w2) \<Rightarrow> (Inl e, treeCache2, w2)
                | (Inr subTree, treeCache2, w2) \<Rightarrow> (Inr (rootTree # subTree), treeCache2, w2))))"

section \<open>Branches, commits and pull requests\<close>

text \<open>\<^verbatim>\<open>getBranchOrNull\<close> (lines 761-771): \<^verbatim>\<open>null\<close> is \<open>None\<close>.\<close>

definition getBranchOrNull ::
  "gateway \<Rightarrow> options \<Rightarrow> string \<Rightarrow> world \<Rightarrow> (js_error + reference option) \<times> world" where
  "getBranchOrNull gw options branchName w =
     (case gitData options (getReferenceAsync gw) GetReference (''heads/'' @ branchName) w of
        (Inr branch, w1) \<Rightarrow> (Inr (Some branch), w1)
      | (Inl error, w1) \<Rightarrow>
          if error_code error = JNum 404 then (Inr None, w1) else (Inl error, w1))"

text \<open>\<^verbatim>\<open>createBranch\<close> (lines 779-786)\<close>

definition createBranch ::
  "gateway \<Rightarrow> options \<Rightarrow> string \<Rightarrow> string \<Rightarrow> world \<Rightarrow> (js_error + reference) \<times> world" where
  "createBranch gw options branchName baseBranchName w =
     (case gitData options (getReferenceAsync gw) GetReference (''heads/'' @ baseBranchName) w of
        (Inl e, w1) \<Rightarrow> (Inl e, w1)
      | (Inr baseBranch, w1) \<Rightarrow>
          gitData options (createReferenceAsync gw) CreateReference
            (''refs/heads/'' @ branchName, object_sha baseBranch) w1)"

text \<open>\<^verbatim>\<open>getLatestCommit\<close> (lines 751-753)\<close>

definition getLatestCommit ::
  "gateway \<Rightarrow> options \<Rightarrow> reference \<Rightarrow> world \<Rightarrow> (js_error + commit) \<times> world" where
  "getLatestCommit gw options branch w =
     gitData options (getCommitAsync gw) GetCommit (object_sha branch) w"

text \<open>\<^verbatim>\<open>commitChanges\<close> (lines 729-744)\<close>

definition commitChanges ::
  "gateway \<Rightarrow> options \<Rightarrow> commit \<Rightarrow> git_tree \<Rightarrow> world \<Rightarrow> (js_error + reference) \<times> world" where
  "commitChanges gw options latestCommit newRootTree w =
     (case gitData options (createCommitAsync gw) CreateCommit
             (toString (opt_message options), tree_sha newRootTree, [commit_sha latestCommit]) w of
        (Inl e, w1) \<Rightarrow> (Inl e, w1)
      | (Inr newCommit, w1) \<Rightarrow>
          gitData options (updateReferenceAsync gw) UpdateReference
            (''heads/'' @ toString (opt_branch options), commit_sha newCommit) w1)"

text \<open>
  The test of the rejection handler in \<^verbatim>\<open>createPullRequest\<close> (lines 863-864):
  the failure is an object, has a message, and the message matches \<^verbatim>\<open>/already exists/\<close>.
\<close>

fun alreadyExists :: "js_error \<Rightarrow> bool" where
  "alreadyExists (ErrorObject c m) =
     (m \<noteq> JUndefined \<and> containsSubstring ''already exists'' (toString m))"
| "alreadyExists (ErrorString s) = False"

text \<open>
  \<^verbatim>\<open>createPullRequest\<close> (lines 851-876). The call goes to \<^verbatim>\<open>github.pullRequests\<close>
  directly, not through \<^verbatim>\<open>gitData\<close>.
\<close>

definition createPullRequest :: "gateway \<Rightarrow> options \<Rightarrow> world \<Rightarrow> (js_error + unit) \<times> world" where
  "createPullRequest gw options w =
     (let lines = split (CHR 0x0A) (toString (opt_message options));
          params = (hd lines, join (CHR 0x0A) (tl lines),
                    toString (opt_baseBranch options), toString (opt_branch options));
          w1 = w\<lparr>requests := requests w @ [PullRequestsCreate params]\<rparr>
      in
      case pullRequestsAsync gw (requests w) (toString (opt_user options))
             (toString (opt_repo options)) params of
        Inr u \<Rightarrow> (Inr (), w1)
      | Inl err \<Rightarrow>
          if alreadyExists err then
            (Inr (), debug options
                       (LogPullRequestExists (toString (opt_branch options))
                          (toString (opt_baseBranch options))) w1)
          else (Inl err, w1))"

section \<open>The sync\<close>

text \<open>
  The steps of the promise chain of \<^verbatim>\<open>syncToGitHub\<close> (lines 428-460), one definition
  for each anonymous function: the branch is resolved or created (lines 430-438);
  the new root tree is computed from the latest commit (lines 440-447); the change
  is published unless the root tree is unchanged (lines 448-457).
\<close>

definition resolveBranch :: "gateway \<Rightarrow> options \<Rightarrow> world \<Rightarrow> (js_error + reference) \<times> world" where
  "resolveBranch gw options w =
     (case getBranchOrNull gw options (toString (opt_branch options)) w of
        (Inl e, w1) \<Rightarrow> (Inl e, w1)
      | (Inr (Some branch), w1) \<Rightarrow> (Inr branch, w1)
      | (Inr None, w1) \<Rightarrow>
          if truthy (opt_createBranch options) then
            createBranch gw options (toString (opt_branch options))
              (toString (opt_baseBranch options)) w1
          else
            (Inl (newError (''Branch `'' @ toString (opt_branch options) @ ''` does not exist'')),
             w1))"

definition computeNewRoot ::
  "gateway \<Rightarrow> options \<Rightarrow> filesystem \<Rightarrow> string list \<Rightarrow> commit \<Rightarrow> world
     \<Rightarrow> (js_error + git_tree) \<times> world" where
  "computeNewRoot gw options fs pathParts commit w =
     (case gitData options (getTreeAsync gw) GetTree (commit_tree_sha commit) w of
        (Inl e, w1) \<Rightarrow> (Inl e, w1)
      | (Inr rootTree, w1) \<Rightarrow>
          (case existingTreesForPath gw options rootTree pathParts None w1 of
             (Inl e, treeCache, w2) \<Rightarrow> (Inl e, w2)
           | (Inr treesForPath, treeCache, w2) \<Rightarrow>
               createNewTreeForPath gw options fs treesForPath pathParts w2))"

definition publish ::
  "gateway \<Rightarrow> options \<Rightarrow> commit \<Rightarrow> git_tree \<Rightarrow> world \<Rightarrow> (js_error + unit) \<times> world" where
  "publish gw options commit newRootTree w =
     (if tree_sha newRootTree = commit_tree_sha commit then
        (Inr (), debug options LogNoChanges w)
      else
        (case commitChanges gw options commit newRootTree w of
           (Inl e, w1) \<Rightarrow> (Inl e, w1)
         | (Inr updated, w1) \<Rightarrow>
             if truthy (opt_createPullRequest options) then createPullRequest gw options w1
             else (Inr (), w1)))"

text \<open>
  How a call of \<^verbatim>\<open>syncToGitHub\<close> ends: it throws before returning a promise, or the
  promise it returns is rejected or resolved.
\<close>

datatype outcome = Thrown js_error | Rejected js_error | Resolved

text \<open>
  \<^verbatim>\<open>syncToGitHub\<close> (lines 412-464). \<^verbatim>\<open>initClient\<close> only configures the client of
  the store, which is the gateway of the model.
\<close>

definition syncToGitHub :: "gateway \<Rightarrow> filesystem \<Rightarrow> options \<Rightarrow> world \<Rightarrow> outcome \<times> world" where
  "syncToGitHub gw fs options0 w0 =
     (let w = debug options0 LogSyncStarted w0 in
      case validateOptions options0 of
        Inl e \<Rightarrow> (Thrown e, w)
      | Inr options \<Rightarrow>
          let pathParts = compact (split (CHR ''/'') (toString (opt_repoPath options))) in
          (case resolveBranch gw options w of
             (Inl e, w1) \<Rightarrow> (Rejected e, w1)
           | (Inr branch, w1) \<Rightarrow>
               (case getLatestCommit gw options branch w1 of
                  (Inl e, w2) \<Rightarrow> (Rejected e, w2)
                | (Inr commit, w2) \<Rightarrow>
                    (case computeNewRoot gw options fs pathParts commit w2 of
                       (Inl e, w3) \<Rightarrow> (Rejected e, w3)
                     | (Inr newRootTree, w3) \<Rightarrow>
                         (case publish gw options commit newRootTree w3 of
                            (Inl e, w4) \<Rightarrow> (Rejected e, w4)
                          | (Inr u, w4) \<Rightarrow> (Resolved, debug options LogSyncComplete w4))))))"

section \<open>Tree objects by reference\<close>

text \<open>
  In the definitions above a tree is a value. The source holds tree objects by
  reference: the cache and the chain hold the same objects, and \<^verbatim>\<open>createTreeForPath\<close>
  changes the entry array of a parent in place. To state what is shared, the path
  resolution and the rebuild are given again over a heap: a tree object is an address
  into the list of all tree objects, a response of the store is allocated as a new
  object, and \<^verbatim>\<open>_.merge({}, cached)\<close> allocates a new object with the content of the
  cached one (a deep copy: the entry array and the entries are new). The entries of a
  tree object belong to it alone, so a heap cell holds the whole tree.
\<close>

type_synonym address = nat
type_synonym heap = "git_tree list"







text \<open>
  The trees behind the addresses of a cache: the cache of values that the first model
  works with.
\<close>

definition derefCache :: "heap \<Rightarrow> (string \<rightharpoonup> address) \<Rightarrow> (string \<rightharpoonup> git_tree)" where
  "derefCache h treeCache = (\<lambda>s. map_option (\<lambda>a. h ! a) (treeCache s))"

chapter \<open>Observations, contracts and concrete inputs\<close>

section \<open>Observing the requests of a step\<close>

text \<open>
  The kind of a request, and the requests that a step has added to the world, with the
  statement that a step only added requests, all of given kinds.
\<close>

datatype kind =
    KGetReference | KCreateReference | KGetCommit | KGetTree | KCreateBlob | KCreateTree
  | KCreateCommit | KUpdateReference | KPullRequestsCreate

fun kindOf :: "request \<Rightarrow> kind" where
  "kindOf (GetReference p) = KGetReference"
| "kindOf (CreateReference p) = KCreateReference"
| "kindOf (GetCommit p) = KGetCommit"
| "kindOf (GetTree p) = KGetTree"
| "kindOf (CreateBlob p) = KCreateBlob"
| "kindOf (CreateTree p) = KCreateTree"
| "kindOf (CreateCommit p) = KCreateCommit"
| "kindOf (UpdateReference p) = KUpdateReference"
| "kindOf (PullRequestsCreate p) = KPullRequestsCreate"

definition sentSince :: "world \<Rightarrow> world \<Rightarrow> request list" where
  "sentSince w w' = drop (length (requests w)) (requests w')"

definition sends :: "kind set \<Rightarrow> world \<Rightarrow> world \<Rightarrow> bool" where
  "sends K w w' =
     (take (length (requests w)) (requests w') = requests w
      \<and> list_all (\<lambda>r. kindOf r \<in> K) (sentSince w w'))"

text \<open>What the store answers in a world to a look-up of a reference.\<close>

definition answerGetReference :: "gateway \<Rightarrow> options \<Rightarrow> world \<Rightarrow> string \<Rightarrow> js_error + reference" where
  "answerGetReference gw options w ref =
     getReferenceAsync gw (requests w) (toString (opt_user options)) (toString (opt_repo options)) ref"

text \<open>
  The chain that \<^verbatim>\<open>createNewTreeForPath\<close> keeps: the chain it was given, without
  the existing tree of the target when there is a tree for every part of the path.
\<close>

definition chainToParent :: "git_tree list \<Rightarrow> string list \<Rightarrow> git_tree list" where
  "chainToParent treesForPath pathParts =
     (if length treesForPath = length pathParts + 1 then butlast treesForPath else treesForPath)"

text \<open>
  The parameters of the pull request that \<^verbatim>\<open>createPullRequest\<close> sends, and what the
  store answers to it in a world.
\<close>

definition pullRequestParams :: "options \<Rightarrow> string \<times> string \<times> string \<times> string" where
  "pullRequestParams options =
     (hd (split (CHR 0x0A) (toString (opt_message options))),
      join (CHR 0x0A) (tl (split (CHR 0x0A) (toString (opt_message options)))),
      toString (opt_baseBranch options), toString (opt_branch options))"

definition answerPullRequest :: "gateway \<Rightarrow> options \<Rightarrow> world \<Rightarrow> js_error + unit" where
  "answerPullRequest gw options w =
     pullRequestsAsync gw (requests w) (toString (opt_user options)) (toString (opt_repo options))
       (pullRequestParams options)"

text \<open>
  The entries among the elements of a tree-creation request (the elements that are not
  \<^verbatim>\<open>null\<close>), and whether a name in a local directory is a subdirectory.
\<close>

definition entriesOf :: "entry option list \<Rightarrow> entry set" where
  "entriesOf children = {c. Some c \<in> set children}"

definition isSubdirectory :: "filesystem \<Rightarrow> string \<Rightarrow> string \<Rightarrow> bool" where
  "isSubdirectory fs localPath filename = (statAsync fs (path_join localPath filename) = Inr True)"


section \<open>The contracts of the specification\<close>

text \<open>
  The contract of the path resolver, in the words of the specification: the chain
  starts at the root; each tree visited is inserted into the cache under its hash; at
  each level the entry of the current tree whose type is Tree and whose path is the next
  segment is looked up; if there is one, the tree fetched for its hash (from the cache
  or else from the store) continues the chain, and if there is none (or no segment is
  left) the chain stops. \<open>fetched cache w s t w'\<close> says that with the cache \<open>cache\<close>, in
  the world \<open>w\<close>, the tree \<open>t\<close> is fetched for the hash \<open>s\<close>, which leaves the world \<open>w'\<close>.
\<close>

definition treeChild :: "git_tree \<Rightarrow> string \<Rightarrow> entry option" where
  "treeChild t segment = find (\<lambda>child. type child = ''tree'' \<and> path child = segment) (tree t)"

inductive spec_chain ::
  "((string \<rightharpoonup> git_tree) \<Rightarrow> world \<Rightarrow> string \<Rightarrow> git_tree \<Rightarrow> world \<Rightarrow> bool)
     \<Rightarrow> (string \<rightharpoonup> git_tree) \<Rightarrow> world \<Rightarrow> git_tree \<Rightarrow> string list \<Rightarrow> git_tree list \<Rightarrow> bool"
  for fetched :: "(string \<rightharpoonup> git_tree) \<Rightarrow> world \<Rightarrow> string \<Rightarrow> git_tree \<Rightarrow> world \<Rightarrow> bool" where
  no_segment_left: "spec_chain fetched cache w root [] [root]"
| segment_missing:
    "treeChild root segment = None \<Longrightarrow> spec_chain fetched cache w root (segment # rest) [root]"
| segment_found:
    "treeChild root segment = Some info \<Longrightarrow>
     fetched (cache(tree_sha root \<mapsto> root)) w (sha info) next w' \<Longrightarrow>
     spec_chain fetched (cache(tree_sha root \<mapsto> root)) w' next rest chain \<Longrightarrow>
     spec_chain fetched cache w root (segment # rest) (root # chain)"

text \<open>
  Fetching from the cache or else from the store: a hash that the cache holds is served
  from it and the world stays as it is; any other hash is read from the store, whose
  answer in this world is the tree, and the world has the read added to its requests
  (and to the console, when the debugging output is on).
\<close>

definition answerGetTree :: "gateway \<Rightarrow> options \<Rightarrow> world \<Rightarrow> string \<Rightarrow> js_error + git_tree" where
  "answerGetTree gw options w treeSha =
     getTreeAsync gw (requests w) (toString (opt_user options)) (toString (opt_repo options)) treeSha"

definition afterGetTree :: "options \<Rightarrow> world \<Rightarrow> string \<Rightarrow> world" where
  "afterGetTree options w treeSha =
     \<lparr>requests = requests w @ [GetTree treeSha],
      console = (if truthy (opt_debug options)
                 then console w @ [LogGitdata (GetTree treeSha)] else console w)\<rparr>"

definition cacheOrStore ::
  "gateway \<Rightarrow> options \<Rightarrow> (string \<rightharpoonup> git_tree) \<Rightarrow> world \<Rightarrow> string \<Rightarrow> git_tree \<Rightarrow> world \<Rightarrow> bool" where
  "cacheOrStore gw options cache w treeSha t w' =
     (case cache treeSha of
        Some cached \<Rightarrow> t = cached \<and> w' = w
      | None \<Rightarrow> answerGetTree gw options w treeSha = Inr t \<and> w' = afterGetTree options w treeSha)"

text \<open>
  The chain of the claim for a store that is addressed by content: \<open>store\<close> gives the
  tree that the store holds under a hash, the same whenever it is asked, and a tree is
  held under its own hash. The chain of trees from the root down to the deepest existing
  segment follows, at each level, the child of type tree with the path of the next
  segment to the tree that the store holds under its hash, and stops at the first
  segment without such a child. There is no chain when the store does not hold the tree
  of a child on the way.
\<close>

definition contentAddressed :: "gateway \<Rightarrow> options \<Rightarrow> (string \<rightharpoonup> git_tree) \<Rightarrow> bool" where
  "contentAddressed gw options store =
     ((\<forall>h s t. getTreeAsync gw h (toString (opt_user options)) (toString (opt_repo options)) s = Inr t
                 \<longleftrightarrow> store s = Some t)
      \<and> (\<forall>s t. store s = Some t \<longrightarrow> tree_sha t = s))"

fun chainInStore :: "(string \<rightharpoonup> git_tree) \<Rightarrow> git_tree \<Rightarrow> string list \<Rightarrow> git_tree list option" where
  "chainInStore store root [] = Some [root]"
| "chainInStore store root (segment # rest) =
     (case treeChild root segment of
        None \<Rightarrow> Some [root]
      | Some info \<Rightarrow>
          (case store (sha info) of
             None \<Rightarrow> None
           | Some next \<Rightarrow> map_option ((#) root) (chainInStore store next rest)))"




section \<open>Concrete inputs\<close>

text \<open>
  A store that is unreachable, an empty directory, an empty world and a well-formed
  option object, on which the theorems below are run.
\<close>

definition failingGateway :: gateway where
  "failingGateway =
     \<lparr>getReferenceAsync = (\<lambda>h u r p. Inl (ErrorString ''offline'')),
      createReferenceAsync = (\<lambda>h u r p. Inl (ErrorString ''offline'')),
      getCommitAsync = (\<lambda>h u r p. Inl (ErrorString ''offline'')),
      getTreeAsync = (\<lambda>h u r p. Inl (ErrorString ''offline'')),
      createBlobAsync = (\<lambda>h u r p. Inl (ErrorString ''offline'')),
      createTreeAsync = (\<lambda>h u r p. Inl (ErrorString ''offline'')),
      createCommitAsync = (\<lambda>h u r p. Inl (ErrorString ''offline'')),
      updateReferenceAsync = (\<lambda>h u r p. Inl (ErrorString ''offline'')),
      pullRequestsAsync = (\<lambda>h u r p. Inl (ErrorString ''offline''))\<rparr>"

definition emptyFilesystem :: filesystem where
  "emptyFilesystem =
     \<lparr>readdirAsync = (\<lambda>p. Inr []), statAsync = (\<lambda>p. Inr False), readFileAsync = (\<lambda>p. Inr [])\<rparr>"

definition exampleOptions :: options where
  "exampleOptions =
     \<lparr>opt_user = JStr ''Asana'', opt_repo = JStr ''node-sync-to-github'',
      opt_localPath = JStr ''test'', opt_repoPath = JStr ''dist/abc/def'',
      opt_message = JStr ''Sync files'', opt_preserveRepoFiles = JUndefined,
      opt_branch = JStr ''test'', opt_baseBranch = JUndefined,
      opt_createBranch = JUndefined, opt_createPullRequest = JUndefined,
      opt_debug = JBool True\<rparr>"

definition emptyWorld :: world where
  "emptyWorld = \<lparr>requests = [], console = []\<rparr>"

text \<open>
  A small store that answers every request. Its trees are addressed by a hash of their
  entries, so that a tree created twice with the same entries has the same hash. It
  holds the branches \<^verbatim>\<open>master\<close> and \<^verbatim>\<open>test\<close>, one commit, and the trees of
  \<^verbatim>\<open>site/assets/c.txt\<close>, \<^verbatim>\<open>site/old\<close> and \<^verbatim>\<open>README\<close>. A pull request from
  \<^verbatim>\<open>test\<close> is open already.
\<close>

definition treeHash :: "entry option list \<Rightarrow> string" where
  "treeHash children =
     ''tree('' @ concat (map (\<lambda>child. case child of
                                  None \<Rightarrow> ''null;''
                                | Some c \<Rightarrow> mode c @ '' '' @ type c @ '' '' @ sha c @ '' '' @ path c @ '';'')
                           children) @ '')''"

definition storedTree :: "entry list \<Rightarrow> git_tree" where
  "storedTree children = \<lparr>tree_sha = treeHash (map Some children), tree = children\<rparr>"

definition assetsTree :: git_tree where
  "assetsTree = storedTree
     [\<lparr>path = ''c.txt'', mode = ''100644'', type = ''blob'', sha = ''blob:3'',
       extra = [(''size'', JNum 1)]\<rparr>]"

definition siteTree :: git_tree where
  "siteTree = storedTree
     [\<lparr>path = ''assets'', mode = ''040000'', type = ''tree'', sha = tree_sha assetsTree,
       extra = [(''url'', JStr ''https://api.github.com/assets'')]\<rparr>,
      \<lparr>path = ''old'', mode = ''040000'', type = ''tree'', sha = ''tree()'', extra = []\<rparr>]"

definition rootTree0 :: git_tree where
  "rootTree0 = storedTree
     [\<lparr>path = ''site'', mode = ''040000'', type = ''tree'', sha = tree_sha siteTree, extra = []\<rparr>,
      \<lparr>path = ''README'', mode = ''100644'', type = ''blob'', sha = ''blob:hello'',
       extra = [(''size'', JNum 5)]\<rparr>]"

definition notFound :: js_error where
  "notFound = ErrorObject (JNum 404) (JStr ''Not Found'')"

definition exampleGateway :: gateway where
  "exampleGateway =
     \<lparr>getReferenceAsync = (\<lambda>h u r ref.
        if ref = ''heads/test'' \<or> ref = ''heads/master''
        then Inr \<lparr>ref_name = ''refs/'' @ ref, object_sha = ''commit0''\<rparr>
        else Inl notFound),
      createReferenceAsync = (\<lambda>h u r (ref, s). Inr \<lparr>ref_name = ref, object_sha = s\<rparr>),
      getCommitAsync = (\<lambda>h u r s.
        if s = ''commit0''
        then Inr \<lparr>commit_sha = ''commit0'', commit_tree_sha = tree_sha rootTree0\<rparr>
        else Inl notFound),
      getTreeAsync = (\<lambda>h u r s.
        case find (\<lambda>t. tree_sha t = s) [rootTree0, siteTree, assetsTree, storedTree []] of
          Some t \<Rightarrow> Inr t
        | None \<Rightarrow> Inl notFound),
      createBlobAsync = (\<lambda>h u r (content, encoding). Inr (''blob:'' @ content)),
      createTreeAsync = (\<lambda>h u r children.
        Inr \<lparr>tree_sha = treeHash children,
             tree = concat (map (\<lambda>child. case child of None \<Rightarrow> [] | Some c \<Rightarrow> [c]) children)\<rparr>),
      createCommitAsync = (\<lambda>h u r (message, t, parents).
        Inr \<lparr>commit_sha = ''commit:'' @ t, commit_tree_sha = t\<rparr>),
      updateReferenceAsync = (\<lambda>h u r (ref, s). Inr \<lparr>ref_name = ''refs/'' @ ref, object_sha = s\<rparr>),
      pullRequestsAsync = (\<lambda>h u r p.
        Inl (ErrorObject (JNum 422) (JStr ''A pull request already exists for Asana:test.'')))\<rparr>"

text \<open>
  A local directory \<^verbatim>\<open>test\<close> with the files \<^verbatim>\<open>a.txt\<close> and \<^verbatim>\<open>b.txt\<close> and the
  subdirectory \<^verbatim>\<open>old\<close>, and a directory \<^verbatim>\<open>same\<close> with the one file \<^verbatim>\<open>c.txt\<close> that
  the store already holds.
\<close>

definition exampleFilesystem :: filesystem where
  "exampleFilesystem =
     \<lparr>readdirAsync = (\<lambda>p.
        if p = ''test'' then Inr [''a.txt'', ''old'', ''b.txt'']
        else if p = ''same'' then Inr [''c.txt'']
        else Inl (ErrorObject (JStr ''ENOENT'') (JStr ''no such file or directory''))),
      statAsync = (\<lambda>p. Inr (p = ''test/old'')),
      readFileAsync = (\<lambda>p.
        if p = ''test/a.txt'' then Inr ''1''
        else if p = ''test/b.txt'' then Inr ''2''
        else if p = ''same/c.txt'' then Inr ''3''
        else Inl (ErrorObject (JStr ''ENOENT'') (JStr ''no such file or directory'')))\<rparr>"

definition siteOptions :: options where
  "siteOptions =
     \<lparr>opt_user = JStr ''Asana'', opt_repo = JStr ''node-sync-to-github'',
      opt_localPath = JStr ''test'', opt_repoPath = JStr ''site/assets'',
      opt_message = JStr ''Sync files'', opt_preserveRepoFiles = JBool True,
      opt_branch = JStr ''test'', opt_baseBranch = JUndefined,
      opt_createBranch = JUndefined, opt_createPullRequest = JBool True,
      opt_debug = JUndefined\<rparr>"

text \<open>The trees that the store of the example holds, by their hash.\<close>

definition exampleStore :: "string \<rightharpoonup> git_tree" where
  "exampleStore treeSha =
     find (\<lambda>t. tree_sha t = treeSha) [rootTree0, siteTree, assetsTree, storedTree []]"

text \<open>
  The same store when it refuses the pull request for another reason, and a sync of the
  directory \<^verbatim>\<open>same\<close> to the root of the repository, without and with the
  debugging output.
\<close>

definition refusingGateway :: gateway where
  "refusingGateway =
     exampleGateway\<lparr>pullRequestsAsync := (\<lambda>h u r p.
        Inl (ErrorObject (JNum 422) (JStr ''No commits between master and test'')))\<rparr>"

definition quietOptions :: options where
  "quietOptions = siteOptions\<lparr>opt_localPath := JStr ''same'', opt_repoPath := JStr ''''\<rparr>"

definition tracedOptions :: options where
  "tracedOptions = quietOptions\<lparr>opt_debug := JBool True\<rparr>"

text \<open>
  A local directory \<^verbatim>\<open>docs\<close> with the file \<^verbatim>\<open>a.txt\<close> and the subdirectory
  \<^verbatim>\<open>constructor\<close>, and a tree of the store with the entries \<^verbatim>\<open>constructor\<close> and
  \<^verbatim>\<open>guide\<close>.
\<close>

definition docsFilesystem :: filesystem where
  "docsFilesystem =
     \<lparr>readdirAsync = (\<lambda>p. Inr [''constructor'', ''a.txt'']),
      statAsync = (\<lambda>p. Inr (p = ''docs/constructor'')),
      readFileAsync = (\<lambda>p. Inr ''1'')\<rparr>"

definition docsTree :: git_tree where
  "docsTree = storedTree
     [\<lparr>path = ''constructor'', mode = ''040000'', type = ''tree'', sha = ''tree()'', extra = []\<rparr>,
      \<lparr>path = ''guide'', mode = ''100644'', type = ''blob'', sha = ''blob:g'', extra = []\<rparr>]"

text \<open>
  A tree of the store at the target path that holds a file named \<^verbatim>\<open>toString\<close> beside
  \<^verbatim>\<open>c.txt\<close>.
\<close>

definition apiTree :: git_tree where
  "apiTree = storedTree
     [\<lparr>path = ''toString'', mode = ''100644'', type = ''blob'', sha = ''blob:t'', extra = []\<rparr>,
      \<lparr>path = ''c.txt'', mode = ''100644'', type = ''blob'', sha = ''blob:3'', extra = []\<rparr>]"



chapter \<open>Properties\<close>

section \<open>Effects of the basic steps\<close>

lemma requests_debug [simp]: "requests (debug options msg w) = requests w"
  by (simp add: debug_def)

lemma sends_iff:
  "sends K w w' \<longleftrightarrow> (\<exists>new. requests w' = requests w @ new \<and> list_all (\<lambda>r. kindOf r \<in> K) new)"
proof
  assume "sends K w w'"
  then have "requests w' = requests w @ sentSince w w'"
    unfolding sends_def sentSince_def by (metis append_take_drop_id)
  with \<open>sends K w w'\<close> show "\<exists>new. requests w' = requests w @ new \<and> list_all (\<lambda>r. kindOf r \<in> K) new"
    unfolding sends_def by blast
next
  assume "\<exists>new. requests w' = requests w @ new \<and> list_all (\<lambda>r. kindOf r \<in> K) new"
  then show "sends K w w'" by (auto simp: sends_def sentSince_def)
qed

lemma sends_same: "requests w' = requests w \<Longrightarrow> sends K w w'"
  by (simp add: sends_def sentSince_def)

lemma sends_trans: "sends K w w1 \<Longrightarrow> sends K w1 w2 \<Longrightarrow> sends K w w2"
  unfolding sends_iff by auto

lemma sends_mono: "sends K w w' \<Longrightarrow> K \<subseteq> K' \<Longrightarrow> sends K' w w'"
  unfolding sends_iff by (auto simp: list_all_iff)

lemma sends_one: "requests w' = requests w @ [r] \<Longrightarrow> kindOf r \<in> K \<Longrightarrow> sends K w w'"
  unfolding sends_iff by auto

lemma sends_debug_left: "sends K (debug options msg w) w' \<longleftrightarrow> sends K w w'"
  by (simp add: sends_def sentSince_def)

lemma sends_debug_right: "sends K w (debug options msg w') \<longleftrightarrow> sends K w w'"
  by (simp add: sends_def sentSince_def)

lemma gitData_requests:
  "gitData options m name p w = (r, w') \<Longrightarrow> requests w' = requests w @ [name p]"
  by (auto simp: gitData_def Let_def)

lemma gitData_result:
  "fst (gitData options m name p w)
     = m (requests w) (toString (opt_user options)) (toString (opt_repo options)) p"
  by (simp add: gitData_def Let_def)

lemma gitData_sends:
  "gitData options m name p w = (r, w') \<Longrightarrow> kindOf (name p) \<in> K \<Longrightarrow> sends K w w'"
  by (rule sends_one [OF gitData_requests])

lemma uploadFile_sends:
  "uploadFile gw options fs localPath filename pe w = (r, w') \<Longrightarrow> sends {KCreateBlob} w w'"
  by (auto simp: uploadFile_def Let_def split: sum.splits if_splits prod.splits
      intro: sends_same gitData_sends)

lemma uploadFiles_sends:
  "uploadFiles gw options fs localPath filenames pe w = (r, w') \<Longrightarrow> sends {KCreateBlob} w w'"
proof (induction filenames arbitrary: pe w r w')
  case Nil
  then show ?case by (auto intro: sends_same)
next
  case (Cons filename rest)
  then show ?case
    by (auto split: prod.splits sum.splits
        dest!: uploadFile_sends intro: sends_trans)
qed

lemma createTreeForSingleDir_sends:
  "createTreeForSingleDir gw options fs localPath baseTree w = (r, w')
     \<Longrightarrow> sends {KCreateBlob, KCreateTree} w w'"
  unfolding createTreeForSingleDir_def
  by (auto split: sum.splits prod.splits intro: sends_same
      dest!: uploadFiles_sends gitData_sends [where K = "{KCreateBlob, KCreateTree}"]
      intro: sends_trans sends_mono)

lemma createTreeForPath_sends:
  "createTreeForPath gw options treesForPath pathParts w = (r, w') \<Longrightarrow> sends {KCreateTree} w w'"
proof (induction gw options treesForPath pathParts w arbitrary: r w' rule: createTreeForPath.induct)
  case (1 gw options treesForPath pathParts w)
  show ?case
  proof (cases "treesForPath = [] \<or> pathParts = []")
    case True
    with "1.prems" show ?thesis
      by (subst (asm) createTreeForPath.simps)
         (auto simp: Let_def intro: sends_same split: if_splits)
  next
    case False
    then have ne: "treesForPath \<noteq> []" "pathParts \<noteq> []" by auto
    let ?req = "map Some (treeChildrenForCreateRequest
        (linkChild (hd (drop (length treesForPath - 2) treesForPath)) (last pathParts) (last treesForPath)))"
    obtain r1 w1 where g: "gitData options (createTreeAsync gw) CreateTree ?req w = (r1, w1)"
      by fastforce
    have s1: "sends {KCreateTree} w w1" using g by (rule gitData_sends) simp
    show ?thesis
    proof (cases r1)
      case (Inl e)
      with "1.prems" g ne have "w' = w1"
        by (subst (asm) createTreeForPath.simps) (simp add: Let_def)
      with s1 show ?thesis by simp
    next
      case (Inr newTree)
      with "1.prems" g ne have
        "createTreeForPath gw options (take (length treesForPath - 2) treesForPath @ [newTree])
           (butlast pathParts) w1 = (r, w')"
        by (subst (asm) createTreeForPath.simps) (simp add: Let_def)
      from "1.IH" [OF ne(1) refl refl ne(2) refl refl g [symmetric] Inr this]
      show ?thesis using s1 by (blast intro: sends_trans)
    qed
  qed
qed



lemma createNewTreeForPath_target_exists:
  "length treesForPath = length pathParts + 1 \<Longrightarrow>
   createNewTreeForPath gw options fs treesForPath pathParts w =
     (case createTreeForSingleDir gw options fs (toString (opt_localPath options))
             (if truthy (opt_preserveRepoFiles options) then Some (last treesForPath) else None)
             (debug options LogTargetPathExists w) of
        (Inl e, w1) \<Rightarrow> (Inl e, w1)
      | (Inr newTargetTree, w1) \<Rightarrow>
          createTreeForPath gw options (butlast treesForPath @ [newTargetTree]) pathParts w1)"
  by (simp add: createNewTreeForPath_def Let_def)

lemma createNewTreeForPath_parent_exists:
  "length treesForPath = length pathParts \<Longrightarrow>
   createNewTreeForPath gw options fs treesForPath pathParts w =
     (case createTreeForSingleDir gw options fs (toString (opt_localPath options)) None w of
        (Inl e, w1) \<Rightarrow> (Inl e, w1)
      | (Inr newTargetTree, w1) \<Rightarrow>
          createTreeForPath gw options (treesForPath @ [newTargetTree]) pathParts w1)"
  by (simp add: createNewTreeForPath_def Let_def)

lemma createNewTreeForPath_parent_missing:
  "length treesForPath \<noteq> length pathParts + 1 \<Longrightarrow> length treesForPath \<noteq> length pathParts \<Longrightarrow>
   createNewTreeForPath gw options fs treesForPath pathParts w = (Inl (pathNotFound options), w)"
  by (simp add: createNewTreeForPath_def Let_def)

lemma sends_build_then_rebuild:
  assumes "(case createTreeForSingleDir gw options fs localPath base w of
        (Inl e, w1) \<Rightarrow> (Inl e, w1)
      | (Inr newTargetTree, w1) \<Rightarrow>
          createTreeForPath gw options (ts @ [newTargetTree]) pathParts w1) = (r, w')"
  shows "sends {KCreateBlob, KCreateTree} w w'"
proof -
  obtain r1 w1 where c: "createTreeForSingleDir gw options fs localPath base w = (r1, w1)"
    by fastforce
  note s1 = createTreeForSingleDir_sends [OF c]
  show ?thesis
  proof (cases r1)
    case (Inl e)
    with assms c have "w' = w1" by simp
    with s1 show ?thesis by simp
  next
    case (Inr newTargetTree)
    with assms c have "createTreeForPath gw options (ts @ [newTargetTree]) pathParts w1 = (r, w')"
      by simp
    then have "sends {KCreateBlob, KCreateTree} w1 w'"
      by (rule sends_mono [OF createTreeForPath_sends]) simp
    with s1 show ?thesis by (blast intro: sends_trans)
  qed
qed

lemma createNewTreeForPath_sends:
  assumes "createNewTreeForPath gw options fs treesForPath pathParts w = (r, w')"
  shows "sends {KCreateBlob, KCreateTree} w w'"
proof -
  consider (target) "length treesForPath = length pathParts + 1"
    | (parent) "length treesForPath = length pathParts"
    | (missing) "length treesForPath \<noteq> length pathParts + 1" "length treesForPath \<noteq> length pathParts"
    by blast
  then show ?thesis
  proof cases
    case target
    from assms [unfolded createNewTreeForPath_target_exists [OF target]]
    have "sends {KCreateBlob, KCreateTree} (debug options LogTargetPathExists w) w'"
      by (rule sends_build_then_rebuild)
    then show ?thesis by (simp add: sends_debug_left)
  next
    case parent
    from assms [unfolded createNewTreeForPath_parent_exists [OF parent]]
    show ?thesis by (rule sends_build_then_rebuild)
  next
    case missing
    with assms show ?thesis
      by (simp add: createNewTreeForPath_parent_missing sends_same)
  qed
qed

lemma getTree_sends:
  "getTree gw options treeCache treeSha w = (r, w') \<Longrightarrow> sends {KGetTree} w w'"
  unfolding getTree_def
  by (auto split: option.splits intro: sends_same gitData_sends)

lemma existingTreesForPath_sends:
  "existingTreesForPath gw options rootTree pathParts treeCache w = (r, treeCache', w')
     \<Longrightarrow> sends {KGetTree} w w'"
proof (induction pathParts arbitrary: rootTree treeCache w r treeCache' w')
  case Nil
  then show ?case by (auto simp: Let_def intro: sends_same)
next
  case (Cons path0 remainingPath)
  define cache1 where "cache1 = (case treeCache of None \<Rightarrow> Map.empty | Some c \<Rightarrow> c)(tree_sha rootTree \<mapsto> rootTree)"
  show ?case
  proof (cases "find (\<lambda>child. type child = ''tree'' \<and> path child = path0) (tree rootTree)")
    case None
    with Cons.prems show ?thesis by (auto simp: Let_def intro: sends_same)
  next
    case (Some info)
    obtain r1 w1 where g: "getTree gw options cache1 (sha info) w = (r1, w1)" by fastforce
    note s1 = getTree_sends [OF g]
    show ?thesis
    proof (cases r1)
      case (Inl e)
      with Cons.prems Some g have "w' = w1" by (simp add: Let_def cache1_def)
      with s1 show ?thesis by simp
    next
      case (Inr nextTree)
      obtain r2 c2 w2 where e: "existingTreesForPath gw options nextTree remainingPath (Some cache1) w1 = (r2, c2, w2)"
        by (metis prod_cases3)
      with Cons.prems Some g Inr have "w' = w2"
        by (auto simp: Let_def cache1_def split: sum.splits)
      with Cons.IH [OF e] s1 show ?thesis by (blast intro: sends_trans)
    qed
  qed
qed

lemma getBranchOrNull_requests:
  "getBranchOrNull gw options branchName w = (r, w')
     \<Longrightarrow> requests w' = requests w @ [GetReference (''heads/'' @ branchName)]"
  unfolding getBranchOrNull_def
  by (auto split: prod.splits sum.splits if_splits dest: gitData_requests)

lemma createBranch_sends:
  "createBranch gw options branchName baseBranchName w = (r, w')
     \<Longrightarrow> sends {KGetReference, KCreateReference} w w'"
  unfolding createBranch_def
  by (auto split: prod.splits sum.splits
      dest!: gitData_sends [where K = "{KGetReference, KCreateReference}"]
      intro: sends_trans)

lemma resolveBranch_sends:
  assumes "resolveBranch gw options w = (r, w')"
  shows "sends {KGetReference, KCreateReference} w w'"
proof -
  let ?K = "{KGetReference, KCreateReference}"
  obtain r1 w1 where g: "getBranchOrNull gw options (toString (opt_branch options)) w = (r1, w1)"
    by fastforce
  have s1: "sends ?K w w1"
    by (rule sends_one [OF getBranchOrNull_requests [OF g]]) simp
  show ?thesis
  proof (cases "r1 = Inr None \<and> truthy (opt_createBranch options)")
    case True
    with assms g have "createBranch gw options (toString (opt_branch options))
        (toString (opt_baseBranch options)) w1 = (r, w')"
      by (simp add: resolveBranch_def)
    from createBranch_sends [OF this] s1 show ?thesis by (blast intro: sends_trans)
  next
    case False
    with assms g have "w' = w1"
      by (auto simp: resolveBranch_def split: sum.splits option.splits if_splits)
    with s1 show ?thesis by simp
  qed
qed

lemma getLatestCommit_sends:
  "getLatestCommit gw options branch w = (r, w') \<Longrightarrow> sends {KGetCommit} w w'"
  unfolding getLatestCommit_def by (auto intro: gitData_sends)

lemma computeNewRoot_sends:
  assumes "computeNewRoot gw options fs pathParts commit w = (r, w')"
  shows "sends {KGetTree, KCreateBlob, KCreateTree} w w'"
proof -
  let ?K = "{KGetTree, KCreateBlob, KCreateTree}"
  obtain r1 w1 where g: "gitData options (getTreeAsync gw) GetTree (commit_tree_sha commit) w = (r1, w1)"
    by fastforce
  have s1: "sends ?K w w1" using g by (rule gitData_sends) simp
  show ?thesis
  proof (cases r1)
    case (Inl e)
    with assms g have "w' = w1" by (simp add: computeNewRoot_def)
    with s1 show ?thesis by simp
  next
    case (Inr rootTree)
    obtain r2 c2 w2 where e: "existingTreesForPath gw options rootTree pathParts None w1 = (r2, c2, w2)"
      by (metis prod_cases3)
    have s2: "sends ?K w1 w2"
      using existingTreesForPath_sends [OF e] by (rule sends_mono) simp
    show ?thesis
    proof (cases r2)
      case (Inl e2)
      with assms g Inr e have "w' = w2" by (simp add: computeNewRoot_def)
      with s1 s2 show ?thesis by (blast intro: sends_trans)
    next
      case (Inr treesForPath)
      with assms g \<open>r1 = Inr rootTree\<close> e
      have "createNewTreeForPath gw options fs treesForPath pathParts w2 = (r, w')"
        by (simp add: computeNewRoot_def)
      then have "sends ?K w2 w'"
        by (rule sends_mono [OF createNewTreeForPath_sends]) simp
      with s1 s2 show ?thesis by (blast intro: sends_trans)
    qed
  qed
qed

lemma commitChanges_sends:
  "commitChanges gw options latestCommit newRootTree w = (r, w')
     \<Longrightarrow> sends {KCreateCommit, KUpdateReference} w w'"
  unfolding commitChanges_def
  by (auto split: prod.splits sum.splits
      dest!: gitData_sends [where K = "{KCreateCommit, KUpdateReference}"]
      intro: sends_trans)

lemma createPullRequest_requests:
  "createPullRequest gw options w = (r, w') \<Longrightarrow>
     requests w' = requests w @
       [PullRequestsCreate
          (hd (split (CHR 0x0A) (toString (opt_message options))),
           join (CHR 0x0A) (tl (split (CHR 0x0A) (toString (opt_message options)))),
           toString (opt_baseBranch options), toString (opt_branch options))]"
  unfolding createPullRequest_def Let_def
  by (auto split: sum.splits if_splits)

lemma publish_sends:
  assumes "publish gw options commit newRootTree w = (r, w')"
  shows "sends {KCreateCommit, KUpdateReference, KPullRequestsCreate} w w'"
proof (cases "tree_sha newRootTree = commit_tree_sha commit")
  case True
  with assms show ?thesis by (auto simp: publish_def sends_debug_right intro: sends_same)
next
  case False
  let ?K = "{KCreateCommit, KUpdateReference, KPullRequestsCreate}"
  obtain r1 w1 where c: "commitChanges gw options commit newRootTree w = (r1, w1)"
    by fastforce
  have s1: "sends ?K w w1"
    by (rule sends_mono [OF commitChanges_sends [OF c]]) simp
  show ?thesis
  proof (cases "\<exists>u. r1 = Inr u \<and> truthy (opt_createPullRequest options)")
    case True
    with assms False c have "createPullRequest gw options w1 = (r, w')"
      by (auto simp: publish_def)
    then have "sends ?K w1 w'"
      by (auto dest!: createPullRequest_requests intro: sends_one)
    with s1 show ?thesis by (blast intro: sends_trans)
  next
    case False
    with assms \<open>tree_sha newRootTree \<noteq> commit_tree_sha commit\<close> c have "w' = w1"
      by (cases r1) (auto simp: publish_def split: if_splits)
    with s1 show ?thesis by simp
  qed
qed

section \<open>Validation of the options\<close>

lemma validateOptions_Inl_iff:
  "(\<exists>e. validateOptions options = Inl e) \<longleftrightarrow>
     (\<not> isString (opt_user options) \<or> \<not> isString (opt_repo options)
      \<or> \<not> isString (opt_localPath options) \<or> \<not> isString (opt_repoPath options)
      \<or> \<not> isString (opt_message options)
      \<or> (js_or (opt_baseBranch options) (JStr ''master'')
            = js_or (opt_branch options) (JStr ''master'')
          \<and> truthy (opt_createBranch options))
      \<or> (js_or (opt_baseBranch options) (JStr ''master'')
            = js_or (opt_branch options) (JStr ''master'')
          \<and> truthy (opt_createPullRequest options)))"
  by (auto simp: validateOptions_def Let_def)

lemma sync_throws:
  "validateOptions options = Inl e \<Longrightarrow>
     syncToGitHub gw fs options w = (Thrown e, debug options LogSyncStarted w)"
  by (simp add: syncToGitHub_def Let_def)

lemma sync_not_thrown:
  "validateOptions options = Inr options' \<Longrightarrow> fst (syncToGitHub gw fs options w) \<noteq> Thrown e"
  by (simp add: syncToGitHub_def Let_def split: prod.splits sum.splits)

text \<open>
  C9. The sync entry point throws exactly when one of \<^verbatim>\<open>user\<close>, \<^verbatim>\<open>repo\<close>,
  \<^verbatim>\<open>localPath\<close>, \<^verbatim>\<open>repoPath\<close>, \<^verbatim>\<open>message\<close> is not a string, or \<^verbatim>\<open>baseBranch\<close> equals
  \<^verbatim>\<open>branch\<close> (both defaulted to \<^verbatim>\<open>'master'\<close>) while \<^verbatim>\<open>createBranch\<close> or
  \<^verbatim>\<open>createPullRequest\<close> is set. When it throws, no request has been sent to the store;
  on every other option object the call does not throw.
\<close>

theorem validateOptions_preflight:
  "((\<exists>e. validateOptions options = Inl e) \<longleftrightarrow>
     (\<not> isString (opt_user options) \<or> \<not> isString (opt_repo options)
      \<or> \<not> isString (opt_localPath options) \<or> \<not> isString (opt_repoPath options)
      \<or> \<not> isString (opt_message options)
      \<or> (js_or (opt_baseBranch options) (JStr ''master'')
            = js_or (opt_branch options) (JStr ''master'')
          \<and> truthy (opt_createBranch options))
      \<or> (js_or (opt_baseBranch options) (JStr ''master'')
            = js_or (opt_branch options) (JStr ''master'')
          \<and> truthy (opt_createPullRequest options))))
   \<and> (\<forall>e. validateOptions options = Inl e \<longrightarrow>
         fst (syncToGitHub gw fs options w) = Thrown e
         \<and> requests (snd (syncToGitHub gw fs options w)) = requests w)
   \<and> ((\<exists>options'. validateOptions options = Inr options') \<longrightarrow>
         (\<forall>e. fst (syncToGitHub gw fs options w) \<noteq> Thrown e))"
  using validateOptions_Inl_iff [of options]
  by (auto simp: sync_throws dest: sync_not_thrown)

theorem validateOptions_preflight_witness:
  "(\<exists>e. validateOptions (exampleOptions\<lparr>opt_createBranch := JBool True, opt_branch := JStr ''''\<rparr>) = Inl e)
   \<and> fst (syncToGitHub failingGateway emptyFilesystem
            (exampleOptions\<lparr>opt_createBranch := JBool True, opt_branch := JStr ''''\<rparr>) emptyWorld)
       = Thrown (newError ''Cannot create `branch` if it is the same as `baseBranch` (master)'')
   \<and> requests (snd (syncToGitHub failingGateway emptyFilesystem
            (exampleOptions\<lparr>opt_createBranch := JBool True, opt_branch := JStr ''''\<rparr>) emptyWorld)) = []
   \<and> (\<forall>e. fst (syncToGitHub failingGateway emptyFilesystem exampleOptions emptyWorld) \<noteq> Thrown e)"
  using validateOptions_preflight [of "exampleOptions\<lparr>opt_createBranch := JBool True, opt_branch := JStr ''''\<rparr>"
          failingGateway emptyFilesystem emptyWorld]
        validateOptions_preflight [of exampleOptions failingGateway emptyFilesystem emptyWorld]
  by (simp add: validateOptions_def exampleOptions_def js_or_def emptyWorld_def newError_def)

section \<open>Branch resolution and bootstrap\<close>

lemma getBranchOrNull_result:
  "fst (getBranchOrNull gw options branchName w) =
     (case answerGetReference gw options w (''heads/'' @ branchName) of
        Inr branch \<Rightarrow> Inr (Some branch)
      | Inl error \<Rightarrow> if error_code error = JNum 404 then Inr None else Inl error)"
  by (simp add: getBranchOrNull_def answerGetReference_def gitData_def Let_def split: sum.splits)

lemma getBranchOrNull_eq:
  "getBranchOrNull gw options branchName w =
     (fst (getBranchOrNull gw options branchName w),
      (debug options (LogGitdata (GetReference (''heads/'' @ branchName))) w)
        \<lparr>requests := requests w @ [GetReference (''heads/'' @ branchName)]\<rparr>)"
  by (simp add: getBranchOrNull_def gitData_def Let_def split: sum.splits)

lemma sync_extends:
  assumes v: "validateOptions options0 = Inr options"
    and rb: "resolveBranch gw options (debug options0 LogSyncStarted w) = (r1, w1)"
  shows "\<exists>rest. requests (snd (syncToGitHub gw fs options0 w)) = requests w1 @ rest"
proof (cases r1)
  case (Inl e)
  with v rb show ?thesis by (simp add: syncToGitHub_def Let_def)
next
  case (Inr branch)
  let ?pp = "compact (split (CHR ''/'') (toString (opt_repoPath options)))"
  obtain r2 w2 where lc: "getLatestCommit gw options branch w1 = (r2, w2)" by fastforce
  from getLatestCommit_sends [OF lc] obtain n2 where n2: "requests w2 = requests w1 @ n2"
    unfolding sends_iff by blast
  show ?thesis
  proof (cases r2)
    case (Inl e)
    with v rb \<open>r1 = Inr branch\<close> lc n2 show ?thesis by (simp add: syncToGitHub_def Let_def)
  next
    case (Inr commit)
    obtain r3 w3 where nr: "computeNewRoot gw options fs ?pp commit w2 = (r3, w3)" by fastforce
    from computeNewRoot_sends [OF nr] obtain n3 where n3: "requests w3 = requests w2 @ n3"
      unfolding sends_iff by blast
    show ?thesis
    proof (cases r3)
      case (Inl e)
      with v rb \<open>r1 = Inr branch\<close> lc \<open>r2 = Inr commit\<close> nr n2 n3 show ?thesis
        by (simp add: syncToGitHub_def Let_def)
    next
      case (Inr newRootTree)
      obtain r4 w4 where pb: "publish gw options commit newRootTree w3 = (r4, w4)" by fastforce
      from publish_sends [OF pb] obtain n4 where n4: "requests w4 = requests w3 @ n4"
        unfolding sends_iff by blast
      from v rb \<open>r1 = Inr branch\<close> lc \<open>r2 = Inr commit\<close> nr Inr pb n2 n3 n4 show ?thesis
        by (cases r4) (simp_all add: syncToGitHub_def Let_def)
    qed
  qed
qed

lemma branch_created:
  fixes validated :: options
  assumes v: "validateOptions options = Inr validated"
    and nf: "answerGetReference gw validated w (''heads/'' @ toString (opt_branch validated)) = Inl e"
      "error_code e = JNum 404"
    and cb: "truthy (opt_createBranch validated)"
    and base: "answerGetReference gw validated
             (w\<lparr>requests := requests w @ [GetReference (''heads/'' @ toString (opt_branch validated))]\<rparr>)
             (''heads/'' @ toString (opt_baseBranch validated)) = Inr baseBranch"
  shows "\<exists>rest. requests (snd (syncToGitHub gw fs options w)) =
               requests w @
               [GetReference (''heads/'' @ toString (opt_branch validated)),
                GetReference (''heads/'' @ toString (opt_baseBranch validated)),
                CreateReference (''refs/heads/'' @ toString (opt_branch validated),
                                 object_sha baseBranch)] @ rest"
proof -
  let ?b = "toString (opt_branch validated)" and ?base = "toString (opt_baseBranch validated)"
  let ?w0 = "debug options LogSyncStarted w"
  obtain r1 w1 where rb: "resolveBranch gw validated ?w0 = (r1, w1)" by fastforce
  have "answerGetReference gw validated ?w0 (''heads/'' @ ?b) = Inl e"
    using nf by (simp add: answerGetReference_def)
  then have none: "fst (getBranchOrNull gw validated ?b ?w0) = Inr None"
    using nf by (simp add: getBranchOrNull_result)
  have "requests w1 = requests w @ [GetReference (''heads/'' @ ?b), GetReference (''heads/'' @ ?base),
          CreateReference (''refs/heads/'' @ ?b, object_sha baseBranch)]"
    using rb cb base none
    apply (subst (asm) resolveBranch_def)
    apply (subst (asm) getBranchOrNull_eq)
    apply (simp add: createBranch_def gitData_def Let_def answerGetReference_def)
    apply auto
    done
  with sync_extends [OF v rb, where fs = fs] show ?thesis by auto
qed

lemma branch_missing:
  fixes validated :: options
  assumes v: "validateOptions options = Inr validated"
    and nf: "answerGetReference gw validated w (''heads/'' @ toString (opt_branch validated)) = Inl e"
      "error_code e = JNum 404"
    and cb: "\<not> truthy (opt_createBranch validated)"
  shows "fst (syncToGitHub gw fs options w) =
              Rejected (newError (''Branch `'' @ toString (opt_branch validated) @ ''` does not exist''))
            \<and> requests (snd (syncToGitHub gw fs options w)) =
              requests w @ [GetReference (''heads/'' @ toString (opt_branch validated))]"
proof -
  let ?b = "toString (opt_branch validated)"
  let ?w0 = "debug options LogSyncStarted w"
  have "answerGetReference gw validated ?w0 (''heads/'' @ ?b) = Inl e"
    using nf by (simp add: answerGetReference_def)
  then have none: "fst (getBranchOrNull gw validated ?b ?w0) = Inr None"
    using nf by (simp add: getBranchOrNull_result)
  have rb: "resolveBranch gw validated ?w0 =
      (Inl (newError (''Branch `'' @ ?b @ ''` does not exist'')),
       (debug validated (LogGitdata (GetReference (''heads/'' @ ?b))) ?w0)
          \<lparr>requests := requests w @ [GetReference (''heads/'' @ ?b)]\<rparr>)"
    using cb none
    apply (subst resolveBranch_def)
    apply (subst getBranchOrNull_eq)
    apply simp
    done
  show ?thesis using v rb by (simp add: syncToGitHub_def Let_def)
qed

text \<open>
  C6. \<^verbatim>\<open>getBranchOrNull\<close> returns \<^verbatim>\<open>null\<close> exactly when the store fails with code 404,
  the reference exactly when the store answers with it, and rejects with every other
  failure of the store. When the branch is absent and \<^verbatim>\<open>createBranch\<close> is set, and the
  store answers the look-up of \<^verbatim>\<open>baseBranch\<close>, the sync next creates the reference
  \<^verbatim>\<open>refs/heads/<branch>\<close> at the commit of the base branch, before anything else is
  sent. When the branch is absent and \<^verbatim>\<open>createBranch\<close> is not set, the sync is rejected
  and the look-up of the branch is the only request it has made.
\<close>

theorem branch_resolution:
  "(fst (getBranchOrNull gw options branchName w) = Inr None \<longleftrightarrow>
      (\<exists>e. answerGetReference gw options w (''heads/'' @ branchName) = Inl e
           \<and> error_code e = JNum 404))
   \<and> (\<forall>branch. fst (getBranchOrNull gw options branchName w) = Inr (Some branch) \<longleftrightarrow>
        answerGetReference gw options w (''heads/'' @ branchName) = Inr branch)
   \<and> (\<forall>e. fst (getBranchOrNull gw options branchName w) = Inl e \<longleftrightarrow>
        answerGetReference gw options w (''heads/'' @ branchName) = Inl e
        \<and> error_code e \<noteq> JNum 404)
   \<and> (\<forall>validated e baseBranch.
        validateOptions options = Inr validated
        \<and> answerGetReference gw validated w (''heads/'' @ toString (opt_branch validated)) = Inl e
        \<and> error_code e = JNum 404
        \<and> truthy (opt_createBranch validated)
        \<and> answerGetReference gw validated
             (w\<lparr>requests := requests w @ [GetReference (''heads/'' @ toString (opt_branch validated))]\<rparr>)
             (''heads/'' @ toString (opt_baseBranch validated)) = Inr baseBranch
        \<longrightarrow> (\<exists>rest. requests (snd (syncToGitHub gw fs options w)) =
               requests w @
               [GetReference (''heads/'' @ toString (opt_branch validated)),
                GetReference (''heads/'' @ toString (opt_baseBranch validated)),
                CreateReference (''refs/heads/'' @ toString (opt_branch validated),
                                 object_sha baseBranch)] @ rest))
   \<and> (\<forall>validated e.
        validateOptions options = Inr validated
        \<and> answerGetReference gw validated w (''heads/'' @ toString (opt_branch validated)) = Inl e
        \<and> error_code e = JNum 404
        \<and> \<not> truthy (opt_createBranch validated)
        \<longrightarrow> fst (syncToGitHub gw fs options w) =
              Rejected (newError (''Branch `'' @ toString (opt_branch validated) @ ''` does not exist''))
            \<and> requests (snd (syncToGitHub gw fs options w)) =
              requests w @ [GetReference (''heads/'' @ toString (opt_branch validated))])"
proof -
  have p1: "fst (getBranchOrNull gw options branchName w) = Inr None \<longleftrightarrow>
      (\<exists>e. answerGetReference gw options w (''heads/'' @ branchName) = Inl e
           \<and> error_code e = JNum 404)"
    by (auto simp: getBranchOrNull_result split: sum.splits if_splits)
  have p2: "\<forall>branch. fst (getBranchOrNull gw options branchName w) = Inr (Some branch) \<longleftrightarrow>
        answerGetReference gw options w (''heads/'' @ branchName) = Inr branch"
    by (auto simp: getBranchOrNull_result split: sum.splits if_splits)
  have p3: "\<forall>e. fst (getBranchOrNull gw options branchName w) = Inl e \<longleftrightarrow>
        answerGetReference gw options w (''heads/'' @ branchName) = Inl e
        \<and> error_code e \<noteq> JNum 404"
    by (auto simp: getBranchOrNull_result split: sum.splits if_splits)
  show ?thesis
    using p1 p2 p3 branch_created [where gw = gw and fs = fs and options = options and w = w]
      branch_missing [where gw = gw and fs = fs and options = options and w = w]
    by blast
qed


lemma validate_feature:
  "validateOptions (siteOptions\<lparr>opt_branch := JStr ''feature'', opt_createBranch := c\<rparr>)
     = Inr (siteOptions\<lparr>opt_branch := JStr ''feature'', opt_createBranch := c, opt_baseBranch := JStr ''master''\<rparr>)"
  by (simp add: validateOptions_def siteOptions_def js_or_def)

theorem branch_resolution_witness:
  "fst (getBranchOrNull exampleGateway siteOptions ''feature'' emptyWorld) = Inr None
   \<and> (\<exists>rest. requests (snd (syncToGitHub exampleGateway exampleFilesystem
          (siteOptions\<lparr>opt_branch := JStr ''feature'', opt_createBranch := JBool True\<rparr>) emptyWorld)) =
        [GetReference ''heads/feature'', GetReference ''heads/master'',
         CreateReference (''refs/heads/feature'', ''commit0'')] @ rest)
   \<and> fst (syncToGitHub exampleGateway exampleFilesystem
          (siteOptions\<lparr>opt_branch := JStr ''feature'', opt_createBranch := JBool False\<rparr>) emptyWorld) =
        Rejected (newError ''Branch `feature` does not exist'')"
proof -
  have nf: "\<And>options w. answerGetReference exampleGateway options w ''heads/feature'' = Inl notFound"
    by (simp add: answerGetReference_def exampleGateway_def)
  have base: "\<And>options w. answerGetReference exampleGateway options w ''heads/master''
      = Inr \<lparr>ref_name = ''refs/heads/master'', object_sha = ''commit0''\<rparr>"
    by (simp add: answerGetReference_def exampleGateway_def)
  have c: "error_code notFound = JNum 404" by (simp add: notFound_def)
  note t1 = branch_resolution [of exampleGateway siteOptions "''feature''" emptyWorld exampleFilesystem]
  note t2 = branch_resolution [of exampleGateway
      "siteOptions\<lparr>opt_branch := JStr ''feature'', opt_createBranch := JBool True\<rparr>"
      "''feature''" emptyWorld exampleFilesystem]
  note t3 = branch_resolution [of exampleGateway
      "siteOptions\<lparr>opt_branch := JStr ''feature'', opt_createBranch := JBool False\<rparr>"
      "''feature''" emptyWorld exampleFilesystem]
  have a: "fst (getBranchOrNull exampleGateway siteOptions ''feature'' emptyWorld) = Inr None"
    using t1 nf c by auto
  have b: "\<exists>rest. requests (snd (syncToGitHub exampleGateway exampleFilesystem
          (siteOptions\<lparr>opt_branch := JStr ''feature'', opt_createBranch := JBool True\<rparr>) emptyWorld)) =
        [GetReference ''heads/feature'', GetReference ''heads/master'',
         CreateReference (''refs/heads/feature'', ''commit0'')] @ rest"
    using t2 [THEN conjunct2, THEN conjunct2, THEN conjunct2, THEN conjunct1, rule_format,
        of "siteOptions\<lparr>opt_branch := JStr ''feature'', opt_createBranch := JBool True, opt_baseBranch := JStr ''master''\<rparr>"
           notFound "\<lparr>ref_name = ''refs/heads/master'', object_sha = ''commit0''\<rparr>"]
      validate_feature nf base c
    by (simp add: emptyWorld_def)
  have d: "fst (syncToGitHub exampleGateway exampleFilesystem
          (siteOptions\<lparr>opt_branch := JStr ''feature'', opt_createBranch := JBool False\<rparr>) emptyWorld) =
        Rejected (newError ''Branch `feature` does not exist'')"
    using t3 [THEN conjunct2, THEN conjunct2, THEN conjunct2, THEN conjunct2, rule_format,
        of "siteOptions\<lparr>opt_branch := JStr ''feature'', opt_createBranch := JBool False, opt_baseBranch := JStr ''master''\<rparr>"
           notFound]
      validate_feature nf c
    by simp
  from a b d show ?thesis by blast
qed

section \<open>The stages of the sync and the unchanged root\<close>

lemma sync_stages:
  assumes "validateOptions options0 = Inr options"
    and "resolveBranch gw options (debug options0 LogSyncStarted w) = (Inr branch, w1)"
    and "getLatestCommit gw options branch w1 = (Inr commit, w2)"
  shows "syncToGitHub gw fs options0 w =
     (case computeNewRoot gw options fs
             (compact (split (CHR ''/'') (toString (opt_repoPath options)))) commit w2 of
        (Inl e, w3) \<Rightarrow> (Rejected e, w3)
      | (Inr newRootTree, w3) \<Rightarrow>
          (case publish gw options commit newRootTree w3 of
             (Inl e, w4) \<Rightarrow> (Rejected e, w4)
           | (Inr u, w4) \<Rightarrow> (Resolved, debug options LogSyncComplete w4)))"
  using assms by (simp add: syncToGitHub_def Let_def)

lemma sends_to_root:
  assumes "resolveBranch gw options w0 = (r1, w1)"
    and "getLatestCommit gw options branch w1 = (r2, w2)"
    and "computeNewRoot gw options fs pathParts commit w2 = (r3, w3)"
  shows "sends {KGetReference, KCreateReference, KGetCommit, KGetTree, KCreateBlob, KCreateTree} w0 w3"
proof -
  let ?K = "{KGetReference, KCreateReference, KGetCommit, KGetTree, KCreateBlob, KCreateTree}"
  have "sends ?K w0 w1" by (rule sends_mono [OF resolveBranch_sends [OF assms(1)]]) simp
  moreover have "sends ?K w1 w2" by (rule sends_mono [OF getLatestCommit_sends [OF assms(2)]]) simp
  moreover have "sends ?K w2 w3" by (rule sends_mono [OF computeNewRoot_sends [OF assms(3)]]) simp
  ultimately show ?thesis by (blast intro: sends_trans)
qed

text \<open>
  C3. A sync whose newly computed root tree has the hash of the root tree of the
  latest commit sends neither \<^verbatim>\<open>createCommit\<close> nor \<^verbatim>\<open>updateReference\<close> (nor a pull
  request): everything it sends is a read, a blob, a tree, or the reference of a branch
  that did not exist; the publishing step sends nothing, and the promise resolves.
\<close>

theorem noop_sync:
  assumes "validateOptions options0 = Inr options"
    and "resolveBranch gw options (debug options0 LogSyncStarted w) = (Inr branch, w1)"
    and "getLatestCommit gw options branch w1 = (Inr commit, w2)"
    and "computeNewRoot gw options fs
           (compact (split (CHR ''/'') (toString (opt_repoPath options)))) commit w2
         = (Inr newRootTree, w3)"
    and "tree_sha newRootTree = commit_tree_sha commit"
  shows "fst (syncToGitHub gw fs options0 w) = Resolved
       \<and> requests (snd (syncToGitHub gw fs options0 w)) = requests w3
       \<and> sends {KGetReference, KCreateReference, KGetCommit, KGetTree, KCreateBlob, KCreateTree}
            w (snd (syncToGitHub gw fs options0 w))
       \<and> list_all (\<lambda>r. kindOf r \<noteq> KCreateCommit \<and> kindOf r \<noteq> KUpdateReference)
            (sentSince w (snd (syncToGitHub gw fs options0 w)))"
proof -
  let ?K = "{KGetReference, KCreateReference, KGetCommit, KGetTree, KCreateBlob, KCreateTree}"
  have p: "publish gw options commit newRootTree w3 = (Inr (), debug options LogNoChanges w3)"
    using assms(5) by (simp add: publish_def)
  have s: "syncToGitHub gw fs options0 w
      = (Resolved, debug options LogSyncComplete (debug options LogNoChanges w3))"
    using sync_stages [OF assms(1-3), of fs] assms(4) p by simp
  have "sends ?K (debug options0 LogSyncStarted w) w3"
    by (rule sends_to_root [OF assms(2-4)])
  then have k: "sends ?K w (snd (syncToGitHub gw fs options0 w))"
    by (simp add: s sends_debug_left sends_debug_right)
  then have "list_all (\<lambda>r. kindOf r \<in> ?K) (sentSince w (snd (syncToGitHub gw fs options0 w)))"
    by (simp add: sends_def)
  then have "list_all (\<lambda>r. kindOf r \<noteq> KCreateCommit \<and> kindOf r \<noteq> KUpdateReference)
            (sentSince w (snd (syncToGitHub gw fs options0 w)))"
    by (auto simp: list_all_iff)
  with s k show ?thesis by simp
qed

lemma validate_site:
  "validateOptions (siteOptions\<lparr>opt_localPath := l, opt_repoPath := JStr p\<rparr>)
     = Inr (siteOptions\<lparr>opt_localPath := l, opt_repoPath := JStr p, opt_baseBranch := JStr ''master''\<rparr>)"
  if "isString l"
  using that by (simp add: validateOptions_def siteOptions_def js_or_def)

theorem noop_sync_witness:
  "fst (syncToGitHub exampleGateway exampleFilesystem
         (siteOptions\<lparr>opt_localPath := JStr ''same'', opt_repoPath := JStr ''site/assets''\<rparr>) emptyWorld)
     = Resolved
   \<and> list_all (\<lambda>r. kindOf r \<noteq> KCreateCommit \<and> kindOf r \<noteq> KUpdateReference)
       (sentSince emptyWorld (snd (syncToGitHub exampleGateway exampleFilesystem
         (siteOptions\<lparr>opt_localPath := JStr ''same'', opt_repoPath := JStr ''site/assets''\<rparr>) emptyWorld)))"
proof -
  let ?given = "siteOptions\<lparr>opt_localPath := JStr ''same'', opt_repoPath := JStr ''site/assets''\<rparr>"
  let ?valid = "siteOptions\<lparr>opt_localPath := JStr ''same'', opt_repoPath := JStr ''site/assets'',
              opt_baseBranch := JStr ''master''\<rparr>"
  let ?branch = "\<lparr>ref_name = ''refs/heads/test'', object_sha = ''commit0''\<rparr>"
  let ?commit = "\<lparr>commit_sha = ''commit0'', commit_tree_sha = tree_sha rootTree0\<rparr>"
  let ?wa = "snd (resolveBranch exampleGateway ?valid (debug ?given LogSyncStarted emptyWorld))"
  let ?wb = "snd (getLatestCommit exampleGateway ?valid ?branch ?wa)"
  let ?pp = "compact (split (CHR ''/'') (toString (opt_repoPath ?valid)))"
  let ?wc = "snd (computeNewRoot exampleGateway ?valid exampleFilesystem ?pp ?commit ?wb)"
  have v: "validateOptions ?given = Inr ?valid" by (simp add: validate_site)
  have rb: "resolveBranch exampleGateway ?valid (debug ?given LogSyncStarted emptyWorld) = (Inr ?branch, ?wa)"
    by code_simp
  have lc: "getLatestCommit exampleGateway ?valid ?branch ?wa = (Inr ?commit, ?wb)"
    by code_simp
  have nr: "computeNewRoot exampleGateway ?valid exampleFilesystem ?pp ?commit ?wb = (Inr (rootTree0\<lparr>tree := map pick (tree rootTree0)\<rparr>), ?wc)"
    by code_simp
  have eq: "tree_sha (rootTree0\<lparr>tree := map pick (tree rootTree0)\<rparr>) = commit_tree_sha ?commit"
    by simp
  from noop_sync [OF v rb lc nr eq] show ?thesis by blast
qed

section \<open>The parent of the target must exist\<close>

lemma parent_missing_rejects:
  "length (chainToParent treesForPath pathParts) \<noteq> length pathParts \<Longrightarrow>
   createNewTreeForPath gw options fs treesForPath pathParts w = (Inl (pathNotFound options), w)"
  by (auto simp: chainToParent_def createNewTreeForPath_parent_missing split: if_splits)

lemma built_only_with_parent:
  assumes "createNewTreeForPath gw options fs treesForPath pathParts w = (r, w')"
    and "sentSince w w' \<noteq> []"
  shows "length (chainToParent treesForPath pathParts) = length pathParts"
proof (rule ccontr)
  assume "length (chainToParent treesForPath pathParts) \<noteq> length pathParts"
  from parent_missing_rejects [OF this] assms show False
    by (simp add: sentSince_def)
qed

lemma sync_path_not_found:
  fixes validated :: options
  assumes v: "validateOptions options = Inr validated"
    and rb: "resolveBranch gw validated (debug options LogSyncStarted w) = (Inr branch, w1)"
    and lc: "getLatestCommit gw validated branch w1 = (Inr commit, w2)"
    and gt: "gitData validated (getTreeAsync gw) GetTree (commit_tree_sha commit) w2 = (Inr rootTree, w3)"
    and ex: "existingTreesForPath gw validated rootTree
               (compact (split (CHR ''/'') (toString (opt_repoPath validated)))) None w3
             = (Inr treesForPath, treeCache, w4)"
    and short: "length (chainToParent treesForPath
                 (compact (split (CHR ''/'') (toString (opt_repoPath validated)))))
               < length (compact (split (CHR ''/'') (toString (opt_repoPath validated))))"
  shows "syncToGitHub gw fs options w = (Rejected (pathNotFound validated), w4)
       \<and> sends {KGetReference, KCreateReference, KGetCommit, KGetTree} w w4"
proof -
  let ?pp = "compact (split (CHR ''/'') (toString (opt_repoPath validated)))"
  let ?K = "{KGetReference, KCreateReference, KGetCommit, KGetTree}"
  have "createNewTreeForPath gw validated fs treesForPath ?pp w4 = (Inl (pathNotFound validated), w4)"
    using short by (intro parent_missing_rejects) simp
  with gt ex have nr: "computeNewRoot gw validated fs ?pp commit w2 = (Inl (pathNotFound validated), w4)"
    by (simp add: computeNewRoot_def)
  have s: "syncToGitHub gw fs options w = (Rejected (pathNotFound validated), w4)"
    using sync_stages [OF v rb lc, of fs] nr by simp
  have "sends ?K (debug options LogSyncStarted w) w1"
    by (rule sends_mono [OF resolveBranch_sends [OF rb]]) simp
  moreover have "sends ?K w1 w2" by (rule sends_mono [OF getLatestCommit_sends [OF lc]]) simp
  moreover have "sends ?K w2 w3" by (rule gitData_sends [OF gt]) simp
  moreover have "sends ?K w3 w4" by (rule sends_mono [OF existingTreesForPath_sends [OF ex]]) simp
  ultimately have "sends ?K (debug options LogSyncStarted w) w4" by (blast intro: sends_trans)
  with s show ?thesis by (simp add: sends_debug_left)
qed

text \<open>
  C5. When the chain of existing trees, without the existing tree of the target, is
  shorter than the list of path parts (and whenever its length differs from it),
  \<^verbatim>\<open>createNewTreeForPath\<close> rejects with the path-not-found error and leaves the world
  as it was; it sends a request only when the two lengths are equal. A sync that
  resolves such a chain is rejected with that error, having sent only reads and, for a
  new branch, its reference: no blob and no tree.
\<close>

theorem strict_parent_check:
  "(length (chainToParent treesForPath pathParts) < length pathParts \<longrightarrow>
      createNewTreeForPath gw options fs treesForPath pathParts w = (Inl (pathNotFound options), w))
   \<and> (length (chainToParent treesForPath pathParts) \<noteq> length pathParts \<longrightarrow>
      createNewTreeForPath gw options fs treesForPath pathParts w = (Inl (pathNotFound options), w))
   \<and> (sentSince w (snd (createNewTreeForPath gw options fs treesForPath pathParts w)) \<noteq> [] \<longrightarrow>
      length (chainToParent treesForPath pathParts) = length pathParts)
   \<and> (\<forall>validated branch w1 commit w2 rootTree w3 chain treeCache w4.
        validateOptions options = Inr validated
        \<and> resolveBranch gw validated (debug options LogSyncStarted w) = (Inr branch, w1)
        \<and> getLatestCommit gw validated branch w1 = (Inr commit, w2)
        \<and> gitData validated (getTreeAsync gw) GetTree (commit_tree_sha commit) w2 = (Inr rootTree, w3)
        \<and> existingTreesForPath gw validated rootTree
               (compact (split (CHR ''/'') (toString (opt_repoPath validated)))) None w3
             = (Inr chain, treeCache, w4)
        \<and> length (chainToParent chain (compact (split (CHR ''/'') (toString (opt_repoPath validated)))))
             < length (compact (split (CHR ''/'') (toString (opt_repoPath validated))))
        \<longrightarrow> syncToGitHub gw fs options w = (Rejected (pathNotFound validated), w4)
            \<and> sends {KGetReference, KCreateReference, KGetCommit, KGetTree} w w4)"
proof -
  have p2: "length (chainToParent treesForPath pathParts) \<noteq> length pathParts \<longrightarrow>
      createNewTreeForPath gw options fs treesForPath pathParts w = (Inl (pathNotFound options), w)"
    by (simp add: parent_missing_rejects)
  have p3: "sentSince w (snd (createNewTreeForPath gw options fs treesForPath pathParts w)) \<noteq> [] \<longrightarrow>
      length (chainToParent treesForPath pathParts) = length pathParts"
    using built_only_with_parent [of gw options fs treesForPath pathParts w]
    by (metis prod.collapse)
  have p1: "length (chainToParent treesForPath pathParts) < length pathParts \<longrightarrow>
      createNewTreeForPath gw options fs treesForPath pathParts w = (Inl (pathNotFound options), w)"
    by (simp add: parent_missing_rejects)
  have p4: "\<forall>validated branch w1 commit w2 rootTree w3 chain treeCache w4.
        validateOptions options = Inr validated
        \<and> resolveBranch gw validated (debug options LogSyncStarted w) = (Inr branch, w1)
        \<and> getLatestCommit gw validated branch w1 = (Inr commit, w2)
        \<and> gitData validated (getTreeAsync gw) GetTree (commit_tree_sha commit) w2 = (Inr rootTree, w3)
        \<and> existingTreesForPath gw validated rootTree
               (compact (split (CHR ''/'') (toString (opt_repoPath validated)))) None w3
             = (Inr chain, treeCache, w4)
        \<and> length (chainToParent chain (compact (split (CHR ''/'') (toString (opt_repoPath validated)))))
             < length (compact (split (CHR ''/'') (toString (opt_repoPath validated))))
        \<longrightarrow> syncToGitHub gw fs options w = (Rejected (pathNotFound validated), w4)
            \<and> sends {KGetReference, KCreateReference, KGetCommit, KGetTree} w w4"
    using sync_path_not_found [where gw = gw and fs = fs and options = options and w = w]
    by blast
  from p1 p2 p3 p4 show ?thesis by blast
qed

theorem strict_parent_check_witness:
  "syncToGitHub exampleGateway exampleFilesystem
      (siteOptions\<lparr>opt_localPath := JStr ''test'', opt_repoPath := JStr ''site/new/deep''\<rparr>) emptyWorld
     = (Rejected (newError ''Could not find existing parent dir for repo path: site/new/deep''),
        \<lparr>requests = [GetReference ''heads/test'', GetCommit ''commit0'',
                      GetTree (tree_sha rootTree0), GetTree (tree_sha siteTree)],
         console = []\<rparr>)
   \<and> createNewTreeForPath exampleGateway siteOptions exampleFilesystem [rootTree0, siteTree]
        [''site'', ''new'', ''deep''] emptyWorld
     = (Inl (pathNotFound siteOptions), emptyWorld)"
proof -
  let ?given = "siteOptions\<lparr>opt_localPath := JStr ''test'', opt_repoPath := JStr ''site/new/deep''\<rparr>"
  let ?valid = "siteOptions\<lparr>opt_localPath := JStr ''test'', opt_repoPath := JStr ''site/new/deep'',
              opt_baseBranch := JStr ''master''\<rparr>"
  let ?branch = "\<lparr>ref_name = ''refs/heads/test'', object_sha = ''commit0''\<rparr>"
  let ?commit = "\<lparr>commit_sha = ''commit0'', commit_tree_sha = tree_sha rootTree0\<rparr>"
  let ?wa = "\<lparr>requests = [GetReference ''heads/test''], console = []\<rparr>"
  let ?wb = "\<lparr>requests = [GetReference ''heads/test'', GetCommit ''commit0''], console = []\<rparr>"
  let ?wc = "\<lparr>requests = [GetReference ''heads/test'', GetCommit ''commit0'',
                      GetTree (tree_sha rootTree0)], console = []\<rparr>"
  let ?wd = "\<lparr>requests = [GetReference ''heads/test'', GetCommit ''commit0'',
                      GetTree (tree_sha rootTree0), GetTree (tree_sha siteTree)], console = []\<rparr>"
  let ?pp = "compact (split (CHR ''/'') (toString (opt_repoPath ?valid)))"
  let ?cache = "snd (snd (existingTreesForPath exampleGateway ?valid rootTree0 ?pp None ?wc))"
  have v: "validateOptions ?given = Inr ?valid" by (simp add: validate_site)
  have rb: "resolveBranch exampleGateway ?valid (debug ?given LogSyncStarted emptyWorld) = (Inr ?branch, ?wa)"
    by code_simp
  have lc: "getLatestCommit exampleGateway ?valid ?branch ?wa = (Inr ?commit, ?wb)"
    by code_simp
  have gt: "gitData ?valid (getTreeAsync exampleGateway) GetTree (commit_tree_sha ?commit) ?wb
      = (Inr rootTree0, ?wc)"
    by code_simp
  have ex: "existingTreesForPath exampleGateway ?valid rootTree0 ?pp None ?wc
      = (Inr [rootTree0, siteTree],
         fst (snd (existingTreesForPath exampleGateway ?valid rootTree0 ?pp None ?wc)), ?wd)"
    by (simp add: prod_eq_iff) code_simp
  have short: "length (chainToParent [rootTree0, siteTree] ?pp) < length ?pp"
    by code_simp
  have short2: "length (chainToParent [rootTree0, siteTree] [''site'', ''new'', ''deep''])
      < length [''site'', ''new'', ''deep'']"
    by code_simp
  note t = strict_parent_check [of "[rootTree0, siteTree]" "[''site'', ''new'', ''deep'']"
      exampleGateway siteOptions exampleFilesystem emptyWorld]
  note s = strict_parent_check [of "[rootTree0, siteTree]" "[''site'', ''new'', ''deep'']"
      exampleGateway ?given exampleFilesystem emptyWorld,
      THEN conjunct2, THEN conjunct2, THEN conjunct2, rule_format,
      of ?valid ?branch ?wa ?commit ?wb rootTree0 ?wc "[rootTree0, siteTree]" _ ?wd]
  have a: "createNewTreeForPath exampleGateway siteOptions exampleFilesystem [rootTree0, siteTree]
        [''site'', ''new'', ''deep''] emptyWorld = (Inl (pathNotFound siteOptions), emptyWorld)"
    using t short2 by blast
  have b: "syncToGitHub exampleGateway exampleFilesystem ?given emptyWorld
      = (Rejected (pathNotFound ?valid), ?wd)"
    using s v rb lc gt ex short by blast
  have c: "pathNotFound ?valid = newError ''Could not find existing parent dir for repo path: site/new/deep''"
    by (simp add: pathNotFound_def siteOptions_def)
  from a b c show ?thesis by simp
qed

section \<open>The pull request\<close>

lemma containsSubstring_iff:
  "containsSubstring pat s \<longleftrightarrow> (\<exists>pre post. s = pre @ pat @ post)"
proof (induction s)
  case Nil
  then show ?case by auto
next
  case (Cons c cs)
  show ?case
  proof
    assume "containsSubstring pat (c # cs)"
    then consider "take (length pat) (c # cs) = pat" | "containsSubstring pat cs" by auto
    then show "\<exists>pre post. c # cs = pre @ pat @ post"
    proof cases
      case 1
      then have "c # cs = [] @ pat @ drop (length pat) (c # cs)"
        by (metis append_Nil append_take_drop_id)
      then show ?thesis by blast
    next
      case 2
      with Cons.IH obtain pre post where "cs = pre @ pat @ post" by blast
      then have "c # cs = (c # pre) @ pat @ post" by simp
      then show ?thesis by blast
    qed
  next
    assume "\<exists>pre post. c # cs = pre @ pat @ post"
    then obtain pre post where d: "c # cs = pre @ pat @ post" by blast
    show "containsSubstring pat (c # cs)"
    proof (cases pre)
      case Nil
      with d have "take (length pat) (c # cs) = pat" by simp
      then show ?thesis by simp
    next
      case (Cons p pre')
      with d have "cs = pre' @ pat @ post" by simp
      with Cons.IH have "containsSubstring pat cs" by blast
      then show ?thesis by simp
    qed
  qed
qed

lemma createPullRequest_eq:
  "createPullRequest gw options w =
     (case answerPullRequest gw options w of
        Inr u \<Rightarrow> (Inr (), w\<lparr>requests := requests w @ [PullRequestsCreate (pullRequestParams options)]\<rparr>)
      | Inl err \<Rightarrow>
          if alreadyExists err then
            (Inr (), debug options
                       (LogPullRequestExists (toString (opt_branch options))
                          (toString (opt_baseBranch options)))
                       (w\<lparr>requests := requests w @ [PullRequestsCreate (pullRequestParams options)]\<rparr>))
          else (Inl err, w\<lparr>requests := requests w @ [PullRequestsCreate (pullRequestParams options)]\<rparr>))"
  by (simp add: createPullRequest_def answerPullRequest_def pullRequestParams_def Let_def
      split: sum.splits)

lemma console_debug:
  "console (debug options msg w) = (if truthy (opt_debug options) then console w @ [msg] else console w)"
  by (simp add: debug_def)

lemma validateOptions_debug:
  "validateOptions options = Inr validated \<Longrightarrow> opt_debug validated = opt_debug options"
  by (auto simp: validateOptions_def Let_def split: if_splits)

lemma pull_request_exists:
  assumes "answerPullRequest gw options w = Inl err" and "alreadyExists err"
  shows "fst (createPullRequest gw options w) = Inr ()"
    and "requests (snd (createPullRequest gw options w))
           = requests w @ [PullRequestsCreate (pullRequestParams options)]"
    and "console (snd (createPullRequest gw options w)) =
           (if truthy (opt_debug options)
            then console w @ [LogPullRequestExists (toString (opt_branch options))
                                (toString (opt_baseBranch options))]
            else console w)"
  using assms by (simp_all add: createPullRequest_eq console_debug requests_debug)

lemma pull_request_refused:
  assumes "answerPullRequest gw options w = Inl err" and "\<not> alreadyExists err"
  shows "createPullRequest gw options w =
           (Inl err, w\<lparr>requests := requests w @ [PullRequestsCreate (pullRequestParams options)]\<rparr>)"
  using assms by (simp add: createPullRequest_eq)

lemma sync_pull_request:
  fixes validated :: options
  assumes v: "validateOptions options = Inr validated"
    and rb: "resolveBranch gw validated (debug options LogSyncStarted w) = (Inr branch, w1)"
    and lc: "getLatestCommit gw validated branch w1 = (Inr commit, w2)"
    and nr: "computeNewRoot gw validated fs
               (compact (split (CHR ''/'') (toString (opt_repoPath validated)))) commit w2
             = (Inr newRootTree, w3)"
    and changed: "tree_sha newRootTree \<noteq> commit_tree_sha commit"
    and cc: "commitChanges gw validated commit newRootTree w3 = (Inr updated, w4)"
    and pr: "truthy (opt_createPullRequest validated)"
    and ans: "answerPullRequest gw validated w4 = Inl err"
  shows "fst (syncToGitHub gw fs options w) = (if alreadyExists err then Resolved else Rejected err)"
    and "console (snd (syncToGitHub gw fs options w)) =
           (if alreadyExists err \<and> truthy (opt_debug options)
            then console w4 @ [LogPullRequestExists (toString (opt_branch validated))
                                 (toString (opt_baseBranch validated)),
                               LogSyncComplete]
            else console w4)"
proof -
  have p: "publish gw validated commit newRootTree w3 = createPullRequest gw validated w4"
    using changed cc pr by (simp add: publish_def)
  show "fst (syncToGitHub gw fs options w) = (if alreadyExists err then Resolved else Rejected err)"
    using sync_stages [OF v rb lc, of fs] nr ans p
    by (simp add: createPullRequest_eq)
  show "console (snd (syncToGitHub gw fs options w)) =
           (if alreadyExists err \<and> truthy (opt_debug options)
            then console w4 @ [LogPullRequestExists (toString (opt_branch validated))
                                 (toString (opt_baseBranch validated)),
                               LogSyncComplete]
            else console w4)"
    using sync_stages [OF v rb lc, of fs] nr ans p validateOptions_debug [OF v]
    by (simp add: createPullRequest_eq console_debug)
qed

text \<open>
  C8. When the store fails the creation of the pull request with an object whose message
  contains \<^verbatim>\<open>already exists\<close>, \<^verbatim>\<open>createPullRequest\<close> succeeds, and it logs the
  condition with \<^verbatim>\<open>debug\<close>, the logger of the program: when \<^verbatim>\<open>options.debug\<close> is
  set, the line that the pull request from the branch to the base branch already exists
  is written to the console, and it is the only line written. Every other failure is its
  result, and nothing is written. A sync that reaches the pull request step resolves in
  the first case, the line being followed on the console by the line of the completed
  sync, and is rejected with the failure of the store in the second.
\<close>

theorem pull_request_idempotent:
  "(\<forall>err. answerPullRequest gw options w = Inl err \<and> alreadyExists err \<longrightarrow>
       fst (createPullRequest gw options w) = Inr ()
       \<and> requests (snd (createPullRequest gw options w))
           = requests w @ [PullRequestsCreate (pullRequestParams options)]
       \<and> console (snd (createPullRequest gw options w)) =
           (if truthy (opt_debug options)
            then console w @ [LogPullRequestExists (toString (opt_branch options))
                                (toString (opt_baseBranch options))]
            else console w))
   \<and> (\<forall>err. answerPullRequest gw options w = Inl err \<and> \<not> alreadyExists err \<longrightarrow>
       createPullRequest gw options w =
         (Inl err, w\<lparr>requests := requests w @ [PullRequestsCreate (pullRequestParams options)]\<rparr>))
   \<and> (\<forall>code message. alreadyExists (ErrorObject code (JStr message)) \<longleftrightarrow>
       (\<exists>pre post. message = pre @ ''already exists'' @ post))
   \<and> (\<forall>validated branch w1 commit w2 newRootTree w3 updated w4 err.
        validateOptions options = Inr validated
        \<and> resolveBranch gw validated (debug options LogSyncStarted w) = (Inr branch, w1)
        \<and> getLatestCommit gw validated branch w1 = (Inr commit, w2)
        \<and> computeNewRoot gw validated fs
               (compact (split (CHR ''/'') (toString (opt_repoPath validated)))) commit w2
             = (Inr newRootTree, w3)
        \<and> tree_sha newRootTree \<noteq> commit_tree_sha commit
        \<and> commitChanges gw validated commit newRootTree w3 = (Inr updated, w4)
        \<and> truthy (opt_createPullRequest validated)
        \<and> answerPullRequest gw validated w4 = Inl err
        \<longrightarrow> fst (syncToGitHub gw fs options w)
              = (if alreadyExists err then Resolved else Rejected err)
            \<and> console (snd (syncToGitHub gw fs options w)) =
                (if alreadyExists err \<and> truthy (opt_debug options)
                 then console w4 @ [LogPullRequestExists (toString (opt_branch validated))
                                      (toString (opt_baseBranch validated)),
                                    LogSyncComplete]
                 else console w4))"
proof -
  have p1: "\<forall>err. answerPullRequest gw options w = Inl err \<and> alreadyExists err \<longrightarrow>
       fst (createPullRequest gw options w) = Inr ()
       \<and> requests (snd (createPullRequest gw options w))
           = requests w @ [PullRequestsCreate (pullRequestParams options)]
       \<and> console (snd (createPullRequest gw options w)) =
           (if truthy (opt_debug options)
            then console w @ [LogPullRequestExists (toString (opt_branch options))
                                (toString (opt_baseBranch options))]
            else console w)"
    using pull_request_exists [where gw = gw and options = options and w = w] by blast
  have p2: "\<forall>err. answerPullRequest gw options w = Inl err \<and> \<not> alreadyExists err \<longrightarrow>
       createPullRequest gw options w =
         (Inl err, w\<lparr>requests := requests w @ [PullRequestsCreate (pullRequestParams options)]\<rparr>)"
    using pull_request_refused [where gw = gw and options = options and w = w] by blast
  have p3: "\<forall>code message. alreadyExists (ErrorObject code (JStr message)) \<longleftrightarrow>
       (\<exists>pre post. message = pre @ ''already exists'' @ post)"
    by (simp add: containsSubstring_iff)
  have p4: "\<forall>validated branch w1 commit w2 newRootTree w3 updated w4 err.
        validateOptions options = Inr validated
        \<and> resolveBranch gw validated (debug options LogSyncStarted w) = (Inr branch, w1)
        \<and> getLatestCommit gw validated branch w1 = (Inr commit, w2)
        \<and> computeNewRoot gw validated fs
               (compact (split (CHR ''/'') (toString (opt_repoPath validated)))) commit w2
             = (Inr newRootTree, w3)
        \<and> tree_sha newRootTree \<noteq> commit_tree_sha commit
        \<and> commitChanges gw validated commit newRootTree w3 = (Inr updated, w4)
        \<and> truthy (opt_createPullRequest validated)
        \<and> answerPullRequest gw validated w4 = Inl err
        \<longrightarrow> fst (syncToGitHub gw fs options w)
              = (if alreadyExists err then Resolved else Rejected err)
            \<and> console (snd (syncToGitHub gw fs options w)) =
                (if alreadyExists err \<and> truthy (opt_debug options)
                 then console w4 @ [LogPullRequestExists (toString (opt_branch validated))
                                      (toString (opt_baseBranch validated)),
                                    LogSyncComplete]
                 else console w4)"
    using sync_pull_request [where gw = gw and fs = fs and options = options and w = w]
    by blast
  from p1 p2 p3 p4 show ?thesis by blast
qed

theorem pull_request_idempotent_witness:
  "fst (syncToGitHub exampleGateway exampleFilesystem tracedOptions emptyWorld) = Resolved
   \<and> (\<exists>before. console (snd (syncToGitHub exampleGateway exampleFilesystem tracedOptions emptyWorld))
         = before @ [LogPullRequestExists ''test'' ''master'', LogSyncComplete])
   \<and> fst (syncToGitHub exampleGateway exampleFilesystem quietOptions emptyWorld) = Resolved
   \<and> console (snd (syncToGitHub exampleGateway exampleFilesystem quietOptions emptyWorld))
       = []
   \<and> createPullRequest exampleGateway (tracedOptions\<lparr>opt_baseBranch := JStr ''master''\<rparr>) emptyWorld
       = (Inr (), \<lparr>requests = [PullRequestsCreate (''Sync files'', '''', ''master'', ''test'')],
                   console = [LogPullRequestExists ''test'' ''master'']\<rparr>)
   \<and> fst (syncToGitHub refusingGateway exampleFilesystem tracedOptions emptyWorld)
       = Rejected (ErrorObject (JNum 422) (JStr ''No commits between master and test''))
   \<and> LogPullRequestExists ''test'' ''master''
       \<notin> set (console (snd (syncToGitHub refusingGateway exampleFilesystem tracedOptions emptyWorld)))"
proof -
  let ?err = "ErrorObject (JNum 422) (JStr ''A pull request already exists for Asana:test.'')"
  let ?other = "ErrorObject (JNum 422) (JStr ''No commits between master and test'')"
  let ?branch = "\<lparr>ref_name = ''refs/heads/test'', object_sha = ''commit0''\<rparr>"
  let ?commit = "\<lparr>commit_sha = ''commit0'', commit_tree_sha = tree_sha rootTree0\<rparr>"
  let ?valid = "\<lambda>given :: options. given\<lparr>opt_baseBranch := JStr ''master''\<rparr>"
  let ?wa = "\<lambda>gw given. snd (resolveBranch gw (?valid given) (debug given LogSyncStarted emptyWorld))"
  let ?wb = "\<lambda>gw given. snd (getLatestCommit gw (?valid given) ?branch (?wa gw given))"
  let ?rc = "\<lambda>gw given. computeNewRoot gw (?valid given) exampleFilesystem
      (compact (split (CHR ''/'') (toString (opt_repoPath (?valid given))))) ?commit (?wb gw given)"
  let ?cc = "\<lambda>gw given. commitChanges gw (?valid given) ?commit
      (projr (fst (?rc gw given))) (snd (?rc gw given))"
  have ae: "alreadyExists ?err" by code_simp
  have nae: "\<not> alreadyExists ?other" by code_simp
  have ans: "\<And>options w. answerPullRequest exampleGateway options w = Inl ?err"
    by (simp add: answerPullRequest_def exampleGateway_def)
  have ans2: "\<And>options w. answerPullRequest refusingGateway options w = Inl ?other"
    by (simp add: answerPullRequest_def refusingGateway_def exampleGateway_def)
  have traced: "fst (syncToGitHub exampleGateway exampleFilesystem tracedOptions emptyWorld)
        = (if alreadyExists ?err then Resolved else Rejected ?err)
      \<and> console (snd (syncToGitHub exampleGateway exampleFilesystem tracedOptions emptyWorld)) =
          (if alreadyExists ?err \<and> truthy (opt_debug tracedOptions)
           then console (snd (?cc exampleGateway tracedOptions))
                  @ [LogPullRequestExists ''test'' ''master'', LogSyncComplete]
           else console (snd (?cc exampleGateway tracedOptions)))"
  proof -
    have v: "validateOptions tracedOptions = Inr (?valid tracedOptions)"
      by (simp add: validateOptions_def tracedOptions_def quietOptions_def siteOptions_def js_or_def)
    have b: "toString (opt_branch (?valid tracedOptions)) = ''test''"
      "toString (opt_baseBranch (?valid tracedOptions)) = ''master''"
      by code_simp+
    have rb: "resolveBranch exampleGateway (?valid tracedOptions) (debug tracedOptions LogSyncStarted emptyWorld)
        = (Inr ?branch, ?wa exampleGateway tracedOptions)"
      by code_simp
    have lc: "getLatestCommit exampleGateway (?valid tracedOptions) ?branch (?wa exampleGateway tracedOptions)
        = (Inr ?commit, ?wb exampleGateway tracedOptions)"
      by code_simp
    have nr: "?rc exampleGateway tracedOptions = (Inr (projr (fst (?rc exampleGateway tracedOptions))), snd (?rc exampleGateway tracedOptions))"
      by code_simp
    have changed: "tree_sha (projr (fst (?rc exampleGateway tracedOptions))) \<noteq> commit_tree_sha ?commit"
      by code_simp
    have cc: "?cc exampleGateway tracedOptions = (Inr (projr (fst (?cc exampleGateway tracedOptions))), snd (?cc exampleGateway tracedOptions))"
      by code_simp
    have pr: "truthy (opt_createPullRequest (?valid tracedOptions))" by code_simp
    have "fst (syncToGitHub exampleGateway exampleFilesystem tracedOptions emptyWorld)
          = (if alreadyExists ?err then Resolved else Rejected ?err)
        \<and> console (snd (syncToGitHub exampleGateway exampleFilesystem tracedOptions emptyWorld)) =
            (if alreadyExists ?err \<and> truthy (opt_debug tracedOptions)
             then console (snd (?cc exampleGateway tracedOptions))
                    @ [LogPullRequestExists (toString (opt_branch (?valid tracedOptions)))
                         (toString (opt_baseBranch (?valid tracedOptions))),
                       LogSyncComplete]
             else console (snd (?cc exampleGateway tracedOptions)))"
      by (rule pull_request_idempotent [of exampleGateway tracedOptions emptyWorld exampleFilesystem,
            THEN conjunct2, THEN conjunct2, THEN conjunct2, rule_format,
            of "?valid tracedOptions" ?branch "?wa exampleGateway tracedOptions" ?commit "?wb exampleGateway tracedOptions"
               "projr (fst (?rc exampleGateway tracedOptions))" "snd (?rc exampleGateway tracedOptions)"
               "projr (fst (?cc exampleGateway tracedOptions))" "snd (?cc exampleGateway tracedOptions)" ?err])
         (intro conjI v rb lc nr changed cc pr ans)
    then show ?thesis by (simp only: b)
  qed
  have silent: "fst (syncToGitHub exampleGateway exampleFilesystem quietOptions emptyWorld)
        = (if alreadyExists ?err then Resolved else Rejected ?err)
      \<and> console (snd (syncToGitHub exampleGateway exampleFilesystem quietOptions emptyWorld)) =
          (if alreadyExists ?err \<and> truthy (opt_debug quietOptions)
           then console (snd (?cc exampleGateway quietOptions))
                  @ [LogPullRequestExists ''test'' ''master'', LogSyncComplete]
           else console (snd (?cc exampleGateway quietOptions)))"
  proof -
    have v: "validateOptions quietOptions = Inr (?valid quietOptions)"
      by (simp add: validateOptions_def tracedOptions_def quietOptions_def siteOptions_def js_or_def)
    have b: "toString (opt_branch (?valid quietOptions)) = ''test''"
      "toString (opt_baseBranch (?valid quietOptions)) = ''master''"
      by code_simp+
    have rb: "resolveBranch exampleGateway (?valid quietOptions) (debug quietOptions LogSyncStarted emptyWorld)
        = (Inr ?branch, ?wa exampleGateway quietOptions)"
      by code_simp
    have lc: "getLatestCommit exampleGateway (?valid quietOptions) ?branch (?wa exampleGateway quietOptions)
        = (Inr ?commit, ?wb exampleGateway quietOptions)"
      by code_simp
    have nr: "?rc exampleGateway quietOptions = (Inr (projr (fst (?rc exampleGateway quietOptions))), snd (?rc exampleGateway quietOptions))"
      by code_simp
    have changed: "tree_sha (projr (fst (?rc exampleGateway quietOptions))) \<noteq> commit_tree_sha ?commit"
      by code_simp
    have cc: "?cc exampleGateway quietOptions = (Inr (projr (fst (?cc exampleGateway quietOptions))), snd (?cc exampleGateway quietOptions))"
      by code_simp
    have pr: "truthy (opt_createPullRequest (?valid quietOptions))" by code_simp
    have "fst (syncToGitHub exampleGateway exampleFilesystem quietOptions emptyWorld)
          = (if alreadyExists ?err then Resolved else Rejected ?err)
        \<and> console (snd (syncToGitHub exampleGateway exampleFilesystem quietOptions emptyWorld)) =
            (if alreadyExists ?err \<and> truthy (opt_debug quietOptions)
             then console (snd (?cc exampleGateway quietOptions))
                    @ [LogPullRequestExists (toString (opt_branch (?valid quietOptions)))
                         (toString (opt_baseBranch (?valid quietOptions))),
                       LogSyncComplete]
             else console (snd (?cc exampleGateway quietOptions)))"
      by (rule pull_request_idempotent [of exampleGateway quietOptions emptyWorld exampleFilesystem,
            THEN conjunct2, THEN conjunct2, THEN conjunct2, rule_format,
            of "?valid quietOptions" ?branch "?wa exampleGateway quietOptions" ?commit "?wb exampleGateway quietOptions"
               "projr (fst (?rc exampleGateway quietOptions))" "snd (?rc exampleGateway quietOptions)"
               "projr (fst (?cc exampleGateway quietOptions))" "snd (?cc exampleGateway quietOptions)" ?err])
         (intro conjI v rb lc nr changed cc pr ans)
    then show ?thesis by (simp only: b)
  qed
  have refused: "fst (syncToGitHub refusingGateway exampleFilesystem tracedOptions emptyWorld)
        = (if alreadyExists ?other then Resolved else Rejected ?other)
      \<and> console (snd (syncToGitHub refusingGateway exampleFilesystem tracedOptions emptyWorld)) =
          (if alreadyExists ?other \<and> truthy (opt_debug tracedOptions)
           then console (snd (?cc refusingGateway tracedOptions))
                  @ [LogPullRequestExists ''test'' ''master'', LogSyncComplete]
           else console (snd (?cc refusingGateway tracedOptions)))"
  proof -
    have v: "validateOptions tracedOptions = Inr (?valid tracedOptions)"
      by (simp add: validateOptions_def tracedOptions_def quietOptions_def siteOptions_def js_or_def)
    have b: "toString (opt_branch (?valid tracedOptions)) = ''test''"
      "toString (opt_baseBranch (?valid tracedOptions)) = ''master''"
      by code_simp+
    have rb: "resolveBranch refusingGateway (?valid tracedOptions) (debug tracedOptions LogSyncStarted emptyWorld)
        = (Inr ?branch, ?wa refusingGateway tracedOptions)"
      by code_simp
    have lc: "getLatestCommit refusingGateway (?valid tracedOptions) ?branch (?wa refusingGateway tracedOptions)
        = (Inr ?commit, ?wb refusingGateway tracedOptions)"
      by code_simp
    have nr: "?rc refusingGateway tracedOptions = (Inr (projr (fst (?rc refusingGateway tracedOptions))), snd (?rc refusingGateway tracedOptions))"
      by code_simp
    have changed: "tree_sha (projr (fst (?rc refusingGateway tracedOptions))) \<noteq> commit_tree_sha ?commit"
      by code_simp
    have cc: "?cc refusingGateway tracedOptions = (Inr (projr (fst (?cc refusingGateway tracedOptions))), snd (?cc refusingGateway tracedOptions))"
      by code_simp
    have pr: "truthy (opt_createPullRequest (?valid tracedOptions))" by code_simp
    have "fst (syncToGitHub refusingGateway exampleFilesystem tracedOptions emptyWorld)
          = (if alreadyExists ?other then Resolved else Rejected ?other)
        \<and> console (snd (syncToGitHub refusingGateway exampleFilesystem tracedOptions emptyWorld)) =
            (if alreadyExists ?other \<and> truthy (opt_debug tracedOptions)
             then console (snd (?cc refusingGateway tracedOptions))
                    @ [LogPullRequestExists (toString (opt_branch (?valid tracedOptions)))
                         (toString (opt_baseBranch (?valid tracedOptions))),
                       LogSyncComplete]
             else console (snd (?cc refusingGateway tracedOptions)))"
      by (rule pull_request_idempotent [of refusingGateway tracedOptions emptyWorld exampleFilesystem,
            THEN conjunct2, THEN conjunct2, THEN conjunct2, rule_format,
            of "?valid tracedOptions" ?branch "?wa refusingGateway tracedOptions" ?commit "?wb refusingGateway tracedOptions"
               "projr (fst (?rc refusingGateway tracedOptions))" "snd (?rc refusingGateway tracedOptions)"
               "projr (fst (?cc refusingGateway tracedOptions))" "snd (?cc refusingGateway tracedOptions)" ?other])
         (intro conjI v rb lc nr changed cc pr ans2)
    then show ?thesis by (simp only: b)
  qed
  have dbg: "truthy (opt_debug tracedOptions)" "\<not> truthy (opt_debug quietOptions)" by code_simp+
  have quiet: "console (snd (?cc exampleGateway quietOptions)) = []"
    by code_simp
  have absent: "LogPullRequestExists ''test'' ''master''
      \<notin> set (console (snd (?cc refusingGateway tracedOptions)))"
    by code_simp
  have a: "fst (syncToGitHub exampleGateway exampleFilesystem tracedOptions emptyWorld) = Resolved"
    using traced ae by (simp only: if_True)
  have b: "\<exists>before. console (snd (syncToGitHub exampleGateway exampleFilesystem tracedOptions emptyWorld))
         = before @ [LogPullRequestExists ''test'' ''master'', LogSyncComplete]"
    using traced ae dbg by (simp only: if_True simp_thms) blast
  have c: "fst (syncToGitHub exampleGateway exampleFilesystem quietOptions emptyWorld) = Resolved"
    using silent ae by (simp only: if_True)
  have d: "console (snd (syncToGitHub exampleGateway exampleFilesystem quietOptions emptyWorld))
      = []"
    using silent dbg quiet by (simp only: if_False simp_thms)
  have e: "createPullRequest exampleGateway (tracedOptions\<lparr>opt_baseBranch := JStr ''master''\<rparr>) emptyWorld
       = (Inr (), \<lparr>requests = [PullRequestsCreate (''Sync files'', '''', ''master'', ''test'')],
                   console = [LogPullRequestExists ''test'' ''master'']\<rparr>)"
  proof -
    note t = pull_request_idempotent [of exampleGateway "?valid tracedOptions"
        emptyWorld exampleFilesystem, THEN conjunct1, rule_format, of ?err]
    have "pullRequestParams (?valid tracedOptions) = (''Sync files'', '''', ''master'', ''test'')"
      by code_simp
    moreover have "toString (opt_branch (?valid tracedOptions)) = ''test''"
      "toString (opt_baseBranch (?valid tracedOptions)) = ''master''"
      "truthy (opt_debug (?valid tracedOptions))"
      by code_simp+
    ultimately show ?thesis
      using t ans ae by (simp add: prod_eq_iff emptyWorld_def world.equality)
  qed
  have f: "fst (syncToGitHub refusingGateway exampleFilesystem tracedOptions emptyWorld) = Rejected ?other"
    using refused nae by (simp only: if_False)
  have g: "LogPullRequestExists ''test'' ''master''
       \<notin> set (console (snd (syncToGitHub refusingGateway exampleFilesystem tracedOptions emptyWorld)))"
    using refused nae absent by (simp only: if_False simp_thms)
  from a b c d e f g show ?thesis by blast
qed

section \<open>Resolution of the path\<close>

lemma find_holds: "find P xs = Some x \<Longrightarrow> P x"
  by (induction xs) (auto split: if_splits)

lemma spec_chain_shape:
  "spec_chain fetched cache w root segments chain \<Longrightarrow>
     hd chain = root \<and> 1 \<le> length chain \<and> length chain \<le> length segments + 1"
  by (induction rule: spec_chain.induct) auto

lemma getTree_failure:
  "fst (getTree gw options treeCache treeSha w) = Inl e \<Longrightarrow>
     \<exists>h s. getTreeAsync gw h (toString (opt_user options)) (toString (opt_repo options)) s = Inl e"
  by (auto simp: getTree_def gitData_def Let_def split: option.splits)

lemma getTree_cacheOrStore:
  "getTree gw options treeCache treeSha w = (Inr t, w')
     \<longleftrightarrow> cacheOrStore gw options treeCache w treeSha t w'"
  by (auto simp: getTree_def cacheOrStore_def answerGetTree_def afterGetTree_def gitData_def
      Let_def debug_def split: option.splits)

lemma getTree_in_store:
  assumes "contentAddressed gw options store"
    and "\<forall>s t. treeCache s = Some t \<longrightarrow> store s = Some t"
  shows "fst (getTree gw options treeCache treeSha w) = Inr t \<longleftrightarrow> store treeSha = Some t"
proof (cases "treeCache treeSha")
  case None
  then have "fst (getTree gw options treeCache treeSha w) =
      getTreeAsync gw (requests w) (toString (opt_user options)) (toString (opt_repo options)) treeSha"
    by (simp add: getTree_def gitData_def Let_def)
  with assms(1) show ?thesis by (simp add: contentAddressed_def)
next
  case (Some cached)
  with assms(2) have "store treeSha = Some cached" by blast
  with Some show ?thesis by (auto simp: getTree_def)
qed

lemma existingTreesForPath_Cons:
  "existingTreesForPath gw options rootTree (segment # rest) treeCache w =
     (let cache1 = (case treeCache of None \<Rightarrow> Map.empty | Some c \<Rightarrow> c)(tree_sha rootTree \<mapsto> rootTree)
      in case treeChild rootTree segment of
        None \<Rightarrow> (Inr [rootTree], cache1, w)
      | Some info \<Rightarrow>
          (case getTree gw options cache1 (sha info) w of
             (Inl e, w1) \<Rightarrow> (Inl e, cache1, w1)
           | (Inr nextTree, w1) \<Rightarrow>
               (case existingTreesForPath gw options nextTree rest (Some cache1) w1 of
                  (Inl e, cache2, w2) \<Rightarrow> (Inl e, cache2, w2)
                | (Inr subTree, cache2, w2) \<Rightarrow> (Inr (rootTree # subTree), cache2, w2))))"
  by (simp add: treeChild_def Let_def)

lemma existingTreesForPath_found:
  assumes "treeChild rootTree segment = Some info"
    and "getTree gw options
           ((case treeCache of None \<Rightarrow> Map.empty | Some c \<Rightarrow> c)(tree_sha rootTree \<mapsto> rootTree))
           (sha info) w = (Inr nextTree, w1)"
  shows "fst (existingTreesForPath gw options rootTree (segment # rest) treeCache w) =
     (case fst (existingTreesForPath gw options nextTree rest
                  (Some ((case treeCache of None \<Rightarrow> Map.empty | Some c \<Rightarrow> c)
                           (tree_sha rootTree \<mapsto> rootTree))) w1) of
        Inl e \<Rightarrow> Inl e
      | Inr subTree \<Rightarrow> Inr (rootTree # subTree))"
  using assms
  by (simp add: existingTreesForPath_Cons Let_def split: prod.splits sum.splits
      del: existingTreesForPath.simps)

lemma existingTreesForPath_lost:
  assumes "treeChild rootTree segment = Some info"
    and "fst (getTree gw options
           ((case treeCache of None \<Rightarrow> Map.empty | Some c \<Rightarrow> c)(tree_sha rootTree \<mapsto> rootTree))
           (sha info) w) = Inl e"
  shows "fst (existingTreesForPath gw options rootTree (segment # rest) treeCache w) = Inl e"
  using assms
  by (auto simp: existingTreesForPath_Cons Let_def split: prod.splits sum.splits
      simp del: existingTreesForPath.simps)

lemma existingTreesForPath_spec:
  "fst (existingTreesForPath gw options rootTree segments treeCache w) = Inr chain \<Longrightarrow>
     spec_chain (cacheOrStore gw options) (case treeCache of None \<Rightarrow> Map.empty | Some c \<Rightarrow> c) w
       rootTree segments chain"
proof (induction segments arbitrary: rootTree treeCache w chain)
  case Nil
  then show ?case by (auto simp: Let_def intro: spec_chain.intros)
next
  case (Cons segment rest)
  let ?cache = "(case treeCache of None \<Rightarrow> Map.empty | Some c \<Rightarrow> c)(tree_sha rootTree \<mapsto> rootTree)"
  show ?case
  proof (cases "treeChild rootTree segment")
    case None
    with Cons.prems have "chain = [rootTree]"
      by (simp add: existingTreesForPath_Cons Let_def del: existingTreesForPath.simps)
    with None show ?thesis by (simp add: spec_chain.intros)
  next
    case (Some info)
    obtain r1 w1 where g: "getTree gw options ?cache (sha info) w = (r1, w1)" by fastforce
    show ?thesis
    proof (cases r1)
      case (Inl e)
      with g have "fst (getTree gw options ?cache (sha info) w) = Inl e" by simp
      from existingTreesForPath_lost [OF Some this] Cons.prems show ?thesis by simp
    next
      case (Inr nextTree)
      with g have g': "getTree gw options ?cache (sha info) w = (Inr nextTree, w1)" by simp
      from existingTreesForPath_found [OF Some g'] Cons.prems obtain sub where
        sub: "fst (existingTreesForPath gw options nextTree rest (Some ?cache) w1) = Inr sub"
          "chain = rootTree # sub"
        by (auto split: sum.splits)
      from Cons.IH [OF sub(1)] have "spec_chain (cacheOrStore gw options) ?cache w1 nextTree rest sub"
        by (simp only: option.case)
      moreover from g' have "cacheOrStore gw options ?cache w (sha info) nextTree w1"
        by (simp add: getTree_cacheOrStore)
      ultimately show ?thesis using Some sub(2) by (auto intro: spec_chain.segment_found)
    qed
  qed
qed

lemma spec_existingTreesForPath:
  "spec_chain (cacheOrStore gw options) cache w rootTree segments chain \<Longrightarrow>
     (case treeCache of None \<Rightarrow> Map.empty | Some c \<Rightarrow> c) = cache \<Longrightarrow>
     fst (existingTreesForPath gw options rootTree segments treeCache w) = Inr chain"
proof (induction arbitrary: treeCache rule: spec_chain.induct)
  case (no_segment_left cache w root)
  then show ?case by (simp add: Let_def)
next
  case (segment_missing root segment cache w rest)
  then show ?case
    by (simp add: existingTreesForPath_Cons Let_def del: existingTreesForPath.simps)
next
  case (segment_found root segment info cache w "next" w' rest chain)
  from segment_found.hyps(2) segment_found.prems
  have g: "getTree gw options
      ((case treeCache of None \<Rightarrow> Map.empty | Some c \<Rightarrow> c)(tree_sha root \<mapsto> root))
      (sha info) w = (Inr next, w')"
    by (simp add: getTree_cacheOrStore)
  have "fst (existingTreesForPath gw options next rest
      (Some ((case treeCache of None \<Rightarrow> Map.empty | Some c \<Rightarrow> c)(tree_sha root \<mapsto> root))) w')
      = Inr chain"
    using segment_found.prems by (intro segment_found.IH) simp
  with existingTreesForPath_found [OF segment_found.hyps(1) g] show ?case by simp
qed

lemma existingTreesForPath_in_store:
  assumes "contentAddressed gw options store"
  shows "store (tree_sha rootTree) = Some rootTree \<Longrightarrow>
     \<forall>s t. (case treeCache of None \<Rightarrow> Map.empty | Some c \<Rightarrow> c) s = Some t \<longrightarrow> store s = Some t \<Longrightarrow>
     fst (existingTreesForPath gw options rootTree segments treeCache w) = Inr chain
       \<longleftrightarrow> chainInStore store rootTree segments = Some chain"
proof (induction segments arbitrary: rootTree treeCache w chain)
  case Nil
  then show ?case by (auto simp: Let_def)
next
  case (Cons segment rest)
  let ?cache = "(case treeCache of None \<Rightarrow> Map.empty | Some c \<Rightarrow> c)(tree_sha rootTree \<mapsto> rootTree)"
  have inv: "\<forall>s t. ?cache s = Some t \<longrightarrow> store s = Some t"
    using Cons.prems by auto
  show ?case
  proof (cases "treeChild rootTree segment")
    case None
    then show ?thesis
      by (auto simp: existingTreesForPath_Cons Let_def simp del: existingTreesForPath.simps)
  next
    case (Some info)
    obtain r1 w1 where g: "getTree gw options ?cache (sha info) w = (r1, w1)" by fastforce
    show ?thesis
    proof (cases r1)
      case (Inl e)
      with g have l: "fst (getTree gw options ?cache (sha info) w) = Inl e" by simp
      then have "\<forall>t. fst (getTree gw options ?cache (sha info) w) \<noteq> Inr t" by simp
      with getTree_in_store [OF assms inv] have "store (sha info) = None"
        by (metis not_Some_eq)
      with existingTreesForPath_lost [OF Some l] Some show ?thesis by simp
    next
      case (Inr nextTree)
      with g have g': "getTree gw options ?cache (sha info) w = (Inr nextTree, w1)" by simp
      then have "fst (getTree gw options ?cache (sha info) w) = Inr nextTree" by simp
      with getTree_in_store [OF assms inv] have held: "store (sha info) = Some nextTree" by blast
      with assms have "tree_sha nextTree = sha info" by (simp add: contentAddressed_def)
      with held have root': "store (tree_sha nextTree) = Some nextTree" by simp
      have inv': "\<forall>s t. (case Some ?cache of None \<Rightarrow> Map.empty | Some c \<Rightarrow> c) s = Some t
          \<longrightarrow> store s = Some t"
        using inv by simp
      have ih: "\<And>sub. fst (existingTreesForPath gw options nextTree rest (Some ?cache) w1) = Inr sub
          \<longleftrightarrow> chainInStore store nextTree rest = Some sub"
        by (rule Cons.IH [OF root' inv'])
      show ?thesis
      proof (cases "fst (existingTreesForPath gw options nextTree rest (Some ?cache) w1)")
        case (Inl e)
        with ih have "chainInStore store nextTree rest = None" by (metis Inl_Inr_False not_Some_eq)
        with existingTreesForPath_found [OF Some g'] Inl Some held show ?thesis by simp
      next
        case (Inr sub)
        with ih have "chainInStore store nextTree rest = Some sub" by blast
        with existingTreesForPath_found [OF Some g'] Inr Some held show ?thesis by auto
      qed
    qed
  qed
qed

lemma existingTreesForPath_failure:
  "fst (existingTreesForPath gw options rootTree segments treeCache w) = Inl e \<Longrightarrow>
     \<exists>h s. getTreeAsync gw h (toString (opt_user options)) (toString (opt_repo options)) s = Inl e"
proof (induction segments arbitrary: rootTree treeCache w)
  case Nil
  then show ?case by (simp add: Let_def)
next
  case (Cons segment rest)
  let ?cache = "(case treeCache of None \<Rightarrow> Map.empty | Some c \<Rightarrow> c)(tree_sha rootTree \<mapsto> rootTree)"
  show ?case
  proof (cases "treeChild rootTree segment")
    case None
    with Cons.prems show ?thesis by (simp add: existingTreesForPath_Cons Let_def del: existingTreesForPath.simps)
  next
    case (Some info)
    obtain r1 w1 where g: "getTree gw options ?cache (sha info) w = (r1, w1)" by fastforce
    show ?thesis
    proof (cases r1)
      case (Inl e1)
      with Cons.prems Some g have "e1 = e" by (simp add: existingTreesForPath_Cons Let_def del: existingTreesForPath.simps)
      with g Inl have "fst (getTree gw options ?cache (sha info) w) = Inl e" by simp
      then show ?thesis by (rule getTree_failure)
    next
      case (Inr nextTree)
      obtain r2 c2 w2 where e: "existingTreesForPath gw options nextTree rest (Some ?cache) w1 = (r2, c2, w2)"
        by (metis prod_cases3)
      from Cons.prems Some g Inr e have "r2 = Inl e"
        by (cases r2) (auto simp: existingTreesForPath_Cons Let_def simp del: existingTreesForPath.simps)
      with e have "fst (existingTreesForPath gw options nextTree rest (Some ?cache) w1) = Inl e" by simp
      then show ?thesis by (rule Cons.IH)
    qed
  qed
qed

lemma existingTreesForPath_partial:
  assumes "treeChild rootTree x = Some info"
    and "getTree gw options
           ((case treeCache of None \<Rightarrow> Map.empty | Some c \<Rightarrow> c)(tree_sha rootTree \<mapsto> rootTree))
           (sha info) w = (Inr xTree, w1)"
    and "treeChild xTree y = None"
  shows "fst (existingTreesForPath gw options rootTree [x, y, z] treeCache w) = Inr [rootTree, xTree]"
  using assms by (simp add: existingTreesForPath_Cons Let_def del: existingTreesForPath.simps)

text \<open>
  C4. \<^verbatim>\<open>existingTreesForPath\<close> fails only with a failure of a \<^verbatim>\<open>getTree\<close> call of the
  store; a missing segment is never a failure, and with a store whose reads succeed it
  always returns a chain. The chains it returns are exactly the chains of the
  specification: the chain starts at the root, follows at each level the child of type
  tree with the path of the next segment to the tree fetched for its hash, from the cache
  or else from the store, and stops at the first segment without such a child; its length
  is between 1 and the number of segments plus 1. For a store that is addressed by
  content, the chain is the chain of trees that the store holds along the path, from the
  root down to the deepest existing segment. Resolving \<^verbatim>\<open>x/y/z\<close> against a root with a
  tree \<^verbatim>\<open>x\<close> that has no tree \<^verbatim>\<open>y\<close> gives the chain of the root and the tree of
  \<^verbatim>\<open>x\<close>.
\<close>

theorem lenient_path_resolution:
  "(\<forall>e. fst (existingTreesForPath gw options rootTree pathParts treeCache w) = Inl e \<longrightarrow>
       (\<exists>h s. getTreeAsync gw h (toString (opt_user options)) (toString (opt_repo options)) s = Inl e))
   \<and> ((\<forall>h s. \<exists>t. getTreeAsync gw h (toString (opt_user options)) (toString (opt_repo options)) s = Inr t)
        \<longrightarrow> (\<exists>chain. fst (existingTreesForPath gw options rootTree pathParts treeCache w) = Inr chain))
   \<and> (\<forall>chain. fst (existingTreesForPath gw options rootTree pathParts treeCache w) = Inr chain \<longleftrightarrow>
        spec_chain (cacheOrStore gw options) (case treeCache of None \<Rightarrow> Map.empty | Some c \<Rightarrow> c) w
          rootTree pathParts chain)
   \<and> (\<forall>chain. fst (existingTreesForPath gw options rootTree pathParts treeCache w) = Inr chain \<longrightarrow>
        hd chain = rootTree \<and> 1 \<le> length chain \<and> length chain \<le> length pathParts + 1)
   \<and> (\<forall>store. contentAddressed gw options store
        \<and> store (tree_sha rootTree) = Some rootTree
        \<and> (\<forall>s t. (case treeCache of None \<Rightarrow> Map.empty | Some c \<Rightarrow> c) s = Some t \<longrightarrow> store s = Some t)
        \<longrightarrow> (\<forall>chain. fst (existingTreesForPath gw options rootTree pathParts treeCache w) = Inr chain
               \<longleftrightarrow> chainInStore store rootTree pathParts = Some chain))
   \<and> (\<forall>x y z info xTree w1.
        treeChild rootTree x = Some info
        \<and> getTree gw options
             ((case treeCache of None \<Rightarrow> Map.empty | Some c \<Rightarrow> c)(tree_sha rootTree \<mapsto> rootTree))
             (sha info) w = (Inr xTree, w1)
        \<and> treeChild xTree y = None
        \<longrightarrow> fst (existingTreesForPath gw options rootTree [x, y, z] treeCache w)
              = Inr [rootTree, xTree])"
proof -
  let ?r = "fst (existingTreesForPath gw options rootTree pathParts treeCache w)"
  let ?cache = "case treeCache of None \<Rightarrow> Map.empty | Some c \<Rightarrow> c"
  have p1: "\<forall>e. ?r = Inl e \<longrightarrow>
       (\<exists>h s. getTreeAsync gw h (toString (opt_user options)) (toString (opt_repo options)) s = Inl e)"
    by (blast dest: existingTreesForPath_failure)
  have p2: "(\<forall>h s. \<exists>t. getTreeAsync gw h (toString (opt_user options)) (toString (opt_repo options)) s = Inr t)
        \<longrightarrow> (\<exists>chain. ?r = Inr chain)"
  proof
    assume total: "\<forall>h s. \<exists>t. getTreeAsync gw h (toString (opt_user options)) (toString (opt_repo options)) s = Inr t"
    show "\<exists>chain. ?r = Inr chain"
    proof (cases ?r)
      case (Inl e)
      with p1 obtain h s where
        "getTreeAsync gw h (toString (opt_user options)) (toString (opt_repo options)) s = Inl e"
        by blast
      with total show ?thesis by (metis Inl_Inr_False)
    next
      case (Inr chain)
      then show ?thesis by blast
    qed
  qed
  have p3: "\<forall>chain. ?r = Inr chain \<longleftrightarrow>
        spec_chain (cacheOrStore gw options) ?cache w rootTree pathParts chain"
    using existingTreesForPath_spec spec_existingTreesForPath by blast
  have p4: "\<forall>chain. ?r = Inr chain \<longrightarrow>
        hd chain = rootTree \<and> 1 \<le> length chain \<and> length chain \<le> length pathParts + 1"
    using existingTreesForPath_spec spec_chain_shape by blast
  have p5: "\<forall>store. contentAddressed gw options store
        \<and> store (tree_sha rootTree) = Some rootTree
        \<and> (\<forall>s t. ?cache s = Some t \<longrightarrow> store s = Some t)
        \<longrightarrow> (\<forall>chain. ?r = Inr chain \<longleftrightarrow> chainInStore store rootTree pathParts = Some chain)"
    using existingTreesForPath_in_store [where gw = gw and options = options and rootTree = rootTree
        and treeCache = treeCache and w = w and segments = pathParts]
    by blast
  have p6: "\<forall>x y z info xTree w1.
        treeChild rootTree x = Some info
        \<and> getTree gw options
             ((case treeCache of None \<Rightarrow> Map.empty | Some c \<Rightarrow> c)(tree_sha rootTree \<mapsto> rootTree))
             (sha info) w = (Inr xTree, w1)
        \<and> treeChild xTree y = None
        \<longrightarrow> fst (existingTreesForPath gw options rootTree [x, y, z] treeCache w)
              = Inr [rootTree, xTree]"
    using existingTreesForPath_partial [where gw = gw and options = options and rootTree = rootTree
        and treeCache = treeCache and w = w]
    by blast
  from p1 p2 p3 p4 p5 p6 show ?thesis by blast
qed

theorem lenient_path_resolution_witness:
  "fst (existingTreesForPath exampleGateway siteOptions rootTree0 [''site'', ''new'', ''deep''] None emptyWorld)
     = Inr [rootTree0, siteTree]
   \<and> spec_chain (cacheOrStore exampleGateway siteOptions) Map.empty emptyWorld
        rootTree0 [''site'', ''new'', ''deep''] [rootTree0, siteTree]
   \<and> \<not> spec_chain (cacheOrStore exampleGateway siteOptions) Map.empty emptyWorld
        rootTree0 [''site'', ''new'', ''deep''] [rootTree0, \<lparr>tree_sha = ''bogus'', tree = []\<rparr>]
   \<and> contentAddressed exampleGateway siteOptions exampleStore
   \<and> chainInStore exampleStore rootTree0 [''site'', ''assets''] = Some [rootTree0, siteTree, assetsTree]
   \<and> fst (existingTreesForPath exampleGateway siteOptions rootTree0 [''site'', ''assets''] None emptyWorld)
        = Inr [rootTree0, siteTree, assetsTree]
   \<and> length [rootTree0, siteTree, assetsTree] \<le> length [''site'', ''assets''] + 1"
proof -
  note t = lenient_path_resolution [of exampleGateway siteOptions rootTree0 "[''site'', ''new'', ''deep'']"
      None emptyWorld]
  note u = lenient_path_resolution [of exampleGateway siteOptions rootTree0 "[''site'', ''assets'']"
      None emptyWorld]
  have c1: "treeChild rootTree0 ''site'' = Some \<lparr>path = ''site'', mode = ''040000'', type = ''tree'',
      sha = tree_sha siteTree, extra = []\<rparr>"
    by code_simp
  have c2: "getTree exampleGateway siteOptions
      ((case None of None \<Rightarrow> Map.empty | Some c \<Rightarrow> c)(tree_sha rootTree0 \<mapsto> rootTree0))
      (sha \<lparr>path = ''site'', mode = ''040000'', type = ''tree'',
      sha = tree_sha siteTree, extra = []\<rparr>) emptyWorld
      = (Inr siteTree, snd (getTree exampleGateway siteOptions
      ((case None of None \<Rightarrow> Map.empty | Some c \<Rightarrow> c)(tree_sha rootTree0 \<mapsto> rootTree0))
      (sha \<lparr>path = ''site'', mode = ''040000'', type = ''tree'',
      sha = tree_sha siteTree, extra = []\<rparr>) emptyWorld))"
    by (simp add: prod_eq_iff) code_simp
  have c3: "treeChild siteTree ''new'' = None" by code_simp
  have a: "fst (existingTreesForPath exampleGateway siteOptions rootTree0 [''site'', ''new'', ''deep''] None emptyWorld)
     = Inr [rootTree0, siteTree]"
    using t [THEN conjunct2, THEN conjunct2, THEN conjunct2, THEN conjunct2, THEN conjunct2, rule_format,
        where x = "''site''" and y = "''new''" and z = "''deep''"] c1 c2 c3
    by blast
  note iff = t [THEN conjunct2, THEN conjunct2, THEN conjunct1, rule_format]
  from a iff [of "[rootTree0, siteTree]"]
  have b: "spec_chain (cacheOrStore exampleGateway siteOptions) Map.empty emptyWorld
        rootTree0 [''site'', ''new'', ''deep''] [rootTree0, siteTree]"
    by simp
  have "siteTree \<noteq> \<lparr>tree_sha = ''bogus'', tree = []\<rparr>" by code_simp
  with a iff [of "[rootTree0, \<lparr>tree_sha = ''bogus'', tree = []\<rparr>]"]
  have c: "\<not> spec_chain (cacheOrStore exampleGateway siteOptions) Map.empty emptyWorld
        rootTree0 [''site'', ''new'', ''deep''] [rootTree0, \<lparr>tree_sha = ''bogus'', tree = []\<rparr>]"
    by simp
  have "\<And>h u r s t. (getTreeAsync exampleGateway h u r s = Inr t) = (exampleStore s = Some t)"
    by (simp add: exampleGateway_def exampleStore_def split: option.splits)
  moreover have "\<And>s t. exampleStore s = Some t \<Longrightarrow> tree_sha t = s"
    unfolding exampleStore_def by (rule find_holds)
  ultimately have d: "contentAddressed exampleGateway siteOptions exampleStore"
    unfolding contentAddressed_def by blast
  have root: "exampleStore (tree_sha rootTree0) = Some rootTree0" by code_simp
  have e: "chainInStore exampleStore rootTree0 [''site'', ''assets''] = Some [rootTree0, siteTree, assetsTree]"
    by code_simp
  from u [THEN conjunct2, THEN conjunct2, THEN conjunct2, THEN conjunct2, THEN conjunct1,
      rule_format, of exampleStore "[rootTree0, siteTree, assetsTree]"] d root e
  have f: "fst (existingTreesForPath exampleGateway siteOptions rootTree0 [''site'', ''assets''] None emptyWorld)
        = Inr [rootTree0, siteTree, assetsTree]"
    by simp
  from u [THEN conjunct2, THEN conjunct2, THEN conjunct2, THEN conjunct1, rule_format, OF f]
  have g: "length [rootTree0, siteTree, assetsTree] \<le> length [''site'', ''assets''] + 1"
    by blast
  from a b c d e f g show ?thesis by blast
qed

section \<open>The rebuild of the trees along the path\<close>











section \<open>The tree of the local directory\<close>

lemma uploadFile_directory:
  "isSubdirectory fs localPath filename \<Longrightarrow>
   uploadFile gw options fs localPath filename pathExists w
     = (Inr (None, pathExists),
        w\<lparr>console := console w @ [WarnDirectory (path_join localPath filename)]\<rparr>)"
  by (simp add: uploadFile_def isSubdirectory_def Let_def)

lemma uploadFile_result:
  assumes "uploadFile gw options fs localPath filename pathExists w = (Inr (child, pathExists'), w')"
  shows "(isSubdirectory fs localPath filename \<and> child = None \<and> pathExists' = pathExists)
       \<or> (\<not> isSubdirectory fs localPath filename \<and> pathExists' = pathExists @ [filename]
           \<and> (\<exists>s. child = Some \<lparr>path = filename, mode = ''100644'', type = ''blob'',
                                 sha = s, extra = []\<rparr>))"
  using assms
  by (auto simp: uploadFile_def isSubdirectory_def Let_def
      split: sum.splits if_splits prod.splits)

lemma uploadFiles_result:
  "uploadFiles gw options fs localPath filenames pathExists w = (Inr (children, pathExists'), w') \<Longrightarrow>
     list_all2 (\<lambda>filename child.
         if isSubdirectory fs localPath filename then child = None
         else \<exists>s. child = Some \<lparr>path = filename, mode = ''100644'', type = ''blob'',
                                sha = s, extra = []\<rparr>)
       filenames children
     \<and> pathExists' = pathExists @ filter (\<lambda>filename. \<not> isSubdirectory fs localPath filename) filenames"
proof (induction filenames arbitrary: pathExists w children w')
  case Nil
  then show ?case by simp
next
  case (Cons filename rest)
  obtain r1 w1 where u: "uploadFile gw options fs localPath filename pathExists w = (r1, w1)"
    by fastforce
  with Cons.prems obtain child pe1 where r1: "r1 = Inr (child, pe1)"
    by (cases r1) auto
  obtain r2 w2 where us: "uploadFiles gw options fs localPath rest pe1 w1 = (r2, w2)"
    by fastforce
  with Cons.prems u r1 obtain cs where r2: "r2 = Inr (cs, pathExists')" and ch: "children = child # cs"
    by (cases r2) auto
  note ih = Cons.IH [OF us [unfolded r2]]
  from uploadFile_result [OF u [unfolded r1]] ih ch show ?case
    by auto
qed

lemma entriesOf_append: "entriesOf (xs @ ys) = entriesOf xs \<union> entriesOf ys"
  by (auto simp: entriesOf_def)

lemma entriesOf_map_Some: "entriesOf (map Some xs) = set xs"
  by (auto simp: entriesOf_def)

lemma created_paths:
  assumes "list_all2 (\<lambda>filename child.
         if isSubdirectory fs localPath filename then child = None
         else \<exists>s. child = Some \<lparr>path = filename, mode = ''100644'', type = ''blob'',
                                sha = s, extra = []\<rparr>)
       filenames children"
  shows "path ` entriesOf children
           = set (filter (\<lambda>filename. \<not> isSubdirectory fs localPath filename) filenames)"
  using assms
proof (induction rule: list_all2_induct)
  case Nil
  then show ?case by (simp add: entriesOf_def)
next
  case (Cons filename filenames child children)
  have "entriesOf (child # children) = entriesOf [child] \<union> entriesOf children"
    using entriesOf_append [of "[child]" children] by simp
  with Cons show ?case
    by (auto simp: entriesOf_def split: if_splits)
qed

lemma createTreeForSingleDir_submitted:
  assumes "readdirAsync fs localPath = Inr filenames"
    and "uploadFiles gw options fs localPath filenames [] w = (Inr (children, pathExists), w1)"
  shows "createTreeForSingleDir gw options fs localPath baseTree w
           = gitData options (createTreeAsync gw) CreateTree
               (childrenWithBase children pathExists baseTree) w1"
  using assms by (simp add: createTreeForSingleDir_def)

lemma childrenWithBase_entries:
  "entriesOf (childrenWithBase children pathExists baseTree)
     = entriesOf children \<union>
       (case baseTree of
          None \<Rightarrow> {}
        | Some base \<Rightarrow>
            pick ` {e \<in> set (tree base).
                     path e \<notin> set pathExists \<and> path e \<notin> set objectPrototypeKeys})"
  by (auto simp: childrenWithBase_def entriesOf_append entriesOf_map_Some
      treeChildrenForCreateRequest_def jsLookupTruthy_def pick_def split: option.splits)

text \<open>
  What \<^verbatim>\<open>createTreeForSingleDir\<close> submits when the directory is read and every file is
  uploaded: the children in the order of the listing, \<^verbatim>\<open>null\<close> for each subdirectory,
  followed by the entries of the base tree whose path is neither the name of an uploaded
  file nor the name of a property that every object inherits.
\<close>

lemma merged_entries:
  assumes "readdirAsync fs localPath = Inr filenames"
    and "uploadFiles gw options fs localPath filenames [] w = (Inr (children, pathExists), w1)"
  shows "requests (snd (createTreeForSingleDir gw options fs localPath baseTree w))
           = requests w1 @ [CreateTree (childrenWithBase children pathExists baseTree)]"
    and "entriesOf (childrenWithBase children pathExists baseTree)
           = entriesOf children \<union>
             (case baseTree of
                None \<Rightarrow> {}
              | Some base \<Rightarrow>
                  pick ` {e \<in> set (tree base).
                           path e \<notin> path ` entriesOf children
                           \<and> path e \<notin> set objectPrototypeKeys})"
    and "length children = length filenames"
    and "\<forall>i < length filenames.
           (children ! i = None) = isSubdirectory fs localPath (filenames ! i)"
proof -
  from uploadFiles_result [OF assms(2)] have
    l: "list_all2 (\<lambda>filename child.
         if isSubdirectory fs localPath filename then child = None
         else \<exists>s. child = Some \<lparr>path = filename, mode = ''100644'', type = ''blob'',
                                sha = s, extra = []\<rparr>)
       filenames children"
    and pe: "pathExists = filter (\<lambda>filename. \<not> isSubdirectory fs localPath filename) filenames"
    by simp_all
  from created_paths [OF l] pe have "set pathExists = path ` entriesOf children" by simp
  then show "entriesOf (childrenWithBase children pathExists baseTree)
           = entriesOf children \<union>
             (case baseTree of
                None \<Rightarrow> {}
              | Some base \<Rightarrow>
                  pick ` {e \<in> set (tree base).
                           path e \<notin> path ` entriesOf children
                           \<and> path e \<notin> set objectPrototypeKeys})"
    by (simp add: childrenWithBase_entries split: option.splits)
  show "requests (snd (createTreeForSingleDir gw options fs localPath baseTree w))
           = requests w1 @ [CreateTree (childrenWithBase children pathExists baseTree)]"
    unfolding createTreeForSingleDir_submitted [OF assms]
    by (simp add: gitData_def Let_def)
  from l show "length children = length filenames"
    by (simp add: list_all2_lengthD)
  from l show "\<forall>i < length filenames.
           (children ! i = None) = isSubdirectory fs localPath (filenames ! i)"
    by (auto simp: list_all2_conv_all_nth split: if_splits)
qed

text \<open>
  C2, at a failing input. The target path holds the files \<^verbatim>\<open>toString\<close> and \<^verbatim>\<open>c.txt\<close>,
  the local directory holds \<^verbatim>\<open>a.txt\<close>, \<^verbatim>\<open>b.txt\<close> and a subdirectory, and
  \<^verbatim>\<open>preserveRepoFiles\<close> is set. The merge should keep both existing files, since neither
  is among the new entries; the tree that is submitted for the target keeps \<^verbatim>\<open>c.txt\<close>
  and loses \<^verbatim>\<open>toString\<close>, because \<^verbatim>\<open>pathExists['toString']\<close> is the inherited
  function and so truthy.
\<close>

theorem preserve_at_failing_input:
  "requests (snd (createNewTreeForPath exampleGateway siteOptions exampleFilesystem
                    [rootTree0, siteTree, apiTree] [''site'', ''assets''] emptyWorld)) ! 2
     = CreateTree
         [Some \<lparr>path = ''a.txt'', mode = ''100644'', type = ''blob'', sha = ''blob:1'', extra = []\<rparr>,
          None,
          Some \<lparr>path = ''b.txt'', mode = ''100644'', type = ''blob'', sha = ''blob:2'', extra = []\<rparr>,
          Some \<lparr>path = ''c.txt'', mode = ''100644'', type = ''blob'', sha = ''blob:3'', extra = []\<rparr>]
   \<and> readdirAsync exampleFilesystem ''test'' = Inr [''a.txt'', ''old'', ''b.txt'']
   \<and> map path (tree apiTree) = [''toString'', ''c.txt'']
   \<and> truthy (opt_preserveRepoFiles siteOptions)"
  by code_simp

text \<open>
  C10, at a failing input. The local directory holds the file \<^verbatim>\<open>a.txt\<close> and the
  subdirectory \<^verbatim>\<open>constructor\<close>; the existing tree holds the entries \<^verbatim>\<open>constructor\<close>
  and \<^verbatim>\<open>guide\<close>. The subdirectory is skipped and stays in the request as \<^verbatim>\<open>null\<close>,
  and it is not recorded in \<^verbatim>\<open>pathExists\<close>; the existing entry of the same name should
  therefore be preserved, but the request holds only \<^verbatim>\<open>a.txt\<close> and \<^verbatim>\<open>guide\<close>:
  \<^verbatim>\<open>pathExists['constructor']\<close> is the inherited function and so truthy.
\<close>

theorem skipped_directory_at_failing_input:
  "requests (snd (createTreeForSingleDir exampleGateway siteOptions docsFilesystem ''docs''
                    (Some docsTree) emptyWorld))
     = [CreateBlob (''1'', ''utf-8''),
        CreateTree
          [None,
           Some \<lparr>path = ''a.txt'', mode = ''100644'', type = ''blob'', sha = ''blob:1'', extra = []\<rparr>,
           Some \<lparr>path = ''guide'', mode = ''100644'', type = ''blob'', sha = ''blob:g'', extra = []\<rparr>]]
   \<and> readdirAsync docsFilesystem ''docs'' = Inr [''constructor'', ''a.txt'']
   \<and> isSubdirectory docsFilesystem ''docs'' ''constructor''
   \<and> map path (tree docsTree) = [''constructor'', ''guide'']"
  by code_simp

section \<open>The cache and the objects it shares with the chain\<close>










end
